theory Spec2Isabelle
  imports Complex_Main
begin

section \<open>Data model\<close>

text \<open>
  The program is a Three.js scene driven by three classes (\<open>CameraController\<close>,
  \<open>PortfolioObjects\<close>, \<open>InteractionManager\<close>) and the coordinator \<open>Portfolio3D\<close>.
  JavaScript numbers are modelled by \<open>real\<close>: no rounding and no overflow. A number
  that the source can turn into NaN by reading an absent \<open>userData\<close> field is a
  \<open>real option\<close>, with \<open>None\<close> for NaN.
\<close>

record vec3 =
  vx :: real
  vy :: real
  vz :: real

definition Vec3 :: "real \<Rightarrow> real \<Rightarrow> real \<Rightarrow> vec3" where
  "Vec3 a b c = \<lparr>vx = a, vy = b, vz = c\<rparr>"

text \<open>\<open>Object3D.position\<close>: each coordinate is a number or NaN.\<close>

record pos =
  px :: "real option"
  py :: "real option"
  pz :: "real option"

definition Pos :: "real \<Rightarrow> real \<Rightarrow> real \<Rightarrow> pos" where
  "Pos a b c = \<lparr>px = Some a, py = Some b, pz = Some c\<rparr>"

text \<open>
  A mesh or line of the scene. \<open>emissiveIntensity\<close> is the property of the object's own
  material (every object of the source gets a material of its own); it is \<open>None\<close> where
  the material has no such property (\<open>MeshBasicMaterial\<close>, \<open>LineBasicMaterial\<close>). The
  \<open>ud_\<close> fields are the entries of \<open>userData\<close>, \<open>None\<close> for \<open>undefined\<close>.
\<close>

record prim =
  position :: pos
  rotation :: vec3
  scale :: vec3
  emissiveIntensity :: "real option"
  ud_angle :: "real option"
  ud_radius :: "real option"
  ud_orbit :: "real option"
  ud_speed :: "real option"
  ud_floatOffset :: "real option"
  ud_hoverY :: "real option"
  ud_delay :: "real option"
  ud_initialScale :: "real option"
  ud_originalEmissiveIntensity :: "real option"

datatype sectionName = Hero | About | Projects | Skills | Contact

text \<open>The keys of \<open>this.objects\<close> in insertion order, which is also \<open>sectionNames\<close>.\<close>

definition sectionNames :: "sectionName list" where
  "sectionNames = [Hero, About, Projects, Skills, Contact]"

text \<open>\<open>sectionNames[i]\<close> for a number \<open>i\<close>: \<open>undefined\<close> outside 0..4.\<close>

definition sectionName_at :: "int \<Rightarrow> sectionName option" where
  "sectionName_at i =
     (if 0 \<le> i \<and> i < int (length sectionNames) then Some (sectionNames ! nat i) else None)"

text \<open>An object reference: the section list that holds the object and its index there.\<close>

type_synonym objref = "sectionName \<times> nat"

subsection \<open>Tweens\<close>

text \<open>
  \<open>gsap.to(target, {x, y, z, duration, delay, ease})\<close>. The library is not part of the
  repository; the model keeps what its documentation promises: a tween starts
  \<open>delay\<close> after the timeline time at which it was created, reads its start value when
  it first renders, writes an eased value on every tick while it runs and the end
  value on the tick that completes it; tweens of one property do not overwrite each
  other (\<open>overwrite: false\<close> is the default) and render in creation order. The three
  coordinates of a target are tweened together, so a tween carries a vector.
\<close>

datatype target = ScaleOf sectionName nat | CameraPosition | TargetPosition

datatype ease = Power2In | Power2InOut | BackOut real

record tween =
  tw_target :: target
  tw_to :: vec3
  tw_start :: real
  tw_duration :: real
  tw_ease :: ease
  tw_from :: "vec3 option"

subsection \<open>Ripples and timers\<close>

text \<open>
  A ripple mesh made by \<open>createRipple\<close>. \<open>rp_inScene\<close> says whether the scene holds it,
  \<open>rp_animating\<close> whether its \<open>animateRipple\<close> callback is still requested, and the two
  \<open>Disposed\<close> flags whether \<open>dispose()\<close> was called on its geometry and material.
\<close>

record ripple =
  rp_position :: pos
  rp_scale :: vec3
  rp_opacity :: real
  rp_startTime :: real
  rp_inScene :: bool
  rp_animating :: bool
  rp_geometryDisposed :: bool
  rp_materialDisposed :: bool

text \<open>The pending callback of \<open>handleObjectClick\<close>: deadline, object, scale to restore.\<close>

type_synonym pulseTimer = "real \<times> objref \<times> vec3"

subsection \<open>The state of the page\<close>

record state =
  currentSection :: int
  sections :: "bool list"
  cam_position :: vec3
  cam_lookAt :: "vec3 option"
  targetPosition :: vec3
  mousePosX :: real
  mousePosY :: real
  po_currentSection :: int
  objects :: "sectionName \<Rightarrow> prim list"
  mouse_x :: real
  mouse_y :: real
  hoveredObject :: "objref option"
  cursor :: string
  ripples :: "ripple list"
  pulseTimers :: "pulseTimer list"
  scrollTimeout :: "(real \<times> real) option"
  tweens :: "tween list"
  time :: real
  innerWidth :: real
  innerHeight :: real

text \<open>
  \<open>currentSection\<close> is the field of \<open>Portfolio3D\<close>, \<open>po_currentSection\<close> the one of
  \<open>PortfolioObjects\<close>; \<open>sections\<close> holds, for each \<open>.content-section\<close> element of the
  page in document order, whether its class list has \<open>active\<close>; \<open>cam_lookAt\<close> is the last
  argument of \<open>camera.lookAt\<close>; \<open>mousePosX\<close>, \<open>mousePosY\<close> and \<open>targetPosition\<close> belong
  to the camera controller, \<open>mouse_x\<close>, \<open>mouse_y\<close> and \<open>hoveredObject\<close> to the interaction
  manager; \<open>scrollTimeout\<close> is the pending wheel timer (deadline and the event's
  \<open>deltaY\<close>); \<open>time\<close> is the time of the animation library's timeline;
  \<open>innerWidth\<close> and \<open>innerHeight\<close> are the window's.
\<close>

datatype error = TypeError

text \<open>
  A call either returns or throws. A throw keeps the state as the statements before
  it left it.
\<close>

datatype outcome = Returns state | Throws error state

section \<open>PortfolioObjects: construction\<close>

definition newObject :: prim where
  "newObject = \<lparr>position = Pos 0 0 0, rotation = Vec3 0 0 0, scale = Vec3 1 1 1,
     emissiveIntensity = None, ud_angle = None, ud_radius = None, ud_orbit = None,
     ud_speed = None, ud_floatOffset = None, ud_hoverY = None, ud_delay = None,
     ud_initialScale = None, ud_originalEmissiveIntensity = None\<rparr>"

text \<open>
  \<open>new THREE.Mesh(geometry, material)\<close>: position and rotation zero, scale one
  (the library's defaults), with the material's emissive intensity.
\<close>

definition newMesh :: "real option \<Rightarrow> prim" where
  "newMesh e = newObject\<lparr>emissiveIntensity := e\<rparr>"

definition heroSphere :: "nat \<Rightarrow> prim" where
  "heroSphere i =
     (let angle = (real i / 8) * pi * 2; radius = 5
      in (newMesh (Some 0.5))
           \<lparr>position := (Pos 0 0 0)\<lparr>px := Some (cos angle * radius), pz := Some (sin angle * radius)\<rparr>,
            ud_angle := Some angle, ud_radius := Some radius\<rparr>)"

definition createHeroSection :: "prim list" where
  "createHeroSection =
     [(newMesh (Some 0.3))\<lparr>position := Pos 0 0 0\<rparr>]
     @ map heroSphere [0..<8]
     @ [(newMesh None)\<lparr>position := Pos 0 0 (-5)\<rparr>]"

definition cubePositions :: "(real \<times> real \<times> real) list" where
  "cubePositions = [(-10, 2, -2), (-8, 0, 0), (-10, -2, -2)]"

text \<open>
  The edge cube has a \<open>LineBasicMaterial\<close>; the solid cube a \<open>MeshStandardMaterial\<close>
  made without \<open>emissiveIntensity\<close>, whose default in the library is 1.
\<close>

definition aboutCubes :: "nat \<Rightarrow> (real \<times> real \<times> real) \<Rightarrow> prim list" where
  "aboutCubes index p =
     (case p of (x, y, z) \<Rightarrow>
        [(newMesh None)\<lparr>position := Pos x y z, ud_floatOffset := Some (real index * 0.5)\<rparr>,
         (newMesh (Some 1))\<lparr>position := Pos x y z, ud_floatOffset := Some (real index * 0.5)\<rparr>])"

definition createAboutSection :: "prim list" where
  "createAboutSection =
     concat (map (\<lambda>index. aboutCubes index (cubePositions ! index)) [0..<length cubePositions])
     @ [newMesh None]"

definition cardPositions :: "(real \<times> real \<times> real) list" where
  "cardPositions = [(6, 2, -2), (8, 0, 0), (6, -2, -2)]"

definition projectCard :: "(real \<times> real \<times> real) \<Rightarrow> prim list" where
  "projectCard p =
     (case p of (x, y, z) \<Rightarrow>
        [(newMesh (Some 0.2))\<lparr>position := Pos x y z, rotation := (Vec3 0 0 0)\<lparr>vy := - pi / 6\<rparr>,
            ud_hoverY := Some y\<rparr>,
         (newMesh None)\<lparr>position := Pos x y z, rotation := (Vec3 0 0 0)\<lparr>vy := - pi / 6\<rparr>\<rparr>])"

definition createProjectsSection :: "prim list" where
  "createProjectsSection = concat (map projectCard cardPositions) @ [newMesh None]"

definition skillOrb :: "nat \<Rightarrow> nat \<Rightarrow> prim" where
  "skillOrb orbit i =
     (let radius = 3 + real orbit * 1.5; count = 4 + orbit * 2;
          angle = (real i / real count) * pi * 2
      in (newMesh (Some 0.5))
           \<lparr>position := \<lparr>px = Some (cos angle * radius), py = Some (3 + sin angle * 0.5),
                          pz = Some (sin angle * radius)\<rparr>,
            ud_angle := Some angle, ud_radius := Some radius, ud_orbit := Some (real orbit),
            ud_speed := Some (0.5 + real orbit * 0.2)\<rparr>)"

definition createSkillsSection :: "prim list" where
  "createSkillsSection =
     concat (map (\<lambda>orbit. map (skillOrb orbit) [0..<4 + orbit * 2]) [0..<3])
     @ [(newMesh (Some 0.5))\<lparr>position := (Pos 0 0 0)\<lparr>py := Some 3\<rparr>\<rparr>]"

definition contactRing :: "nat \<Rightarrow> prim" where
  "contactRing i =
     (newMesh None)\<lparr>position := Pos 0 (-3) 0, rotation := (Vec3 0 0 0)\<lparr>vx := pi / 2\<rparr>,
        ud_delay := Some (real i * 0.2), ud_initialScale := Some 1\<rparr>"

definition createContactSection :: "prim list" where
  "createContactSection =
     map contactRing [0..<5] @ [(newMesh (Some 0.3))\<lparr>position := Pos 0 (-3) 0\<rparr>]"

text \<open>\<open>createAllSections\<close> fills the five lists of \<open>this.objects\<close>.\<close>

fun createAllSections :: "sectionName \<Rightarrow> prim list" where
  "createAllSections Hero = createHeroSection"
| "createAllSections About = createAboutSection"
| "createAllSections Projects = createProjectsSection"
| "createAllSections Skills = createSkillsSection"
| "createAllSections Contact = createContactSection"

text \<open>\<open>Object.values(this.objects).flat()\<close>, as object references and as objects.\<close>

definition sectionRefs :: "(sectionName \<Rightarrow> prim list) \<Rightarrow> sectionName \<Rightarrow> objref list" where
  "sectionRefs objs n = map (\<lambda>k. (n, k)) [0..<length (objs n)]"

definition allRefs :: "(sectionName \<Rightarrow> prim list) \<Rightarrow> objref list" where
  "allRefs objs = concat (map (sectionRefs objs) sectionNames)"

definition allObjects :: "(sectionName \<Rightarrow> prim list) \<Rightarrow> prim list" where
  "allObjects objs = concat (map objs sectionNames)"

section \<open>Portfolio3D: construction\<close>

text \<open>
  The state that \<open>init\<close> has built when \<open>createAllSections\<close> returns: the
  constructors of the three classes and the objects, before \<open>init\<close> calls \<open>animate\<close>
  for the first time (that call is the first frame of a run). The page and the window
  are not part of the repository's scripts: the active flags of the page's sections and
  the window's size are parameters. The loading screen's fade is page styling and is
  left out.
\<close>

definition init :: "bool list \<Rightarrow> real \<Rightarrow> real \<Rightarrow> state" where
  "init page w h =
     \<lparr>currentSection = 0, sections = page,
      cam_position = Vec3 0 0 15, cam_lookAt = None, targetPosition = Vec3 0 0 15,
      mousePosX = 0, mousePosY = 0,
      po_currentSection = 0, objects = createAllSections,
      mouse_x = 0, mouse_y = 0, hoveredObject = None, cursor = '''',
      ripples = [], pulseTimers = [], scrollTimeout = None,
      tweens = [], time = 0, innerWidth = w, innerHeight = h\<rparr>"

section \<open>The animation library\<close>

definition newTween :: "target \<Rightarrow> vec3 \<Rightarrow> real \<Rightarrow> real \<Rightarrow> ease \<Rightarrow> real \<Rightarrow> tween" where
  "newTween g v duration delay e now =
     \<lparr>tw_target = g, tw_to = v, tw_start = now + delay, tw_duration = duration,
      tw_ease = e, tw_from = None\<rparr>"

definition gsap_to :: "target \<Rightarrow> vec3 \<Rightarrow> real \<Rightarrow> real \<Rightarrow> ease \<Rightarrow> state \<Rightarrow> state" where
  "gsap_to g v duration delay e s =
     s\<lparr>tweens := tweens s @ [newTween g v duration delay e (time s)]\<rparr>"

text \<open>The library's easing curves \<open>power2.in\<close>, \<open>power2.inOut\<close> and \<open>back.out(c)\<close>.\<close>

fun easeRatio :: "ease \<Rightarrow> real \<Rightarrow> real" where
  "easeRatio Power2In p = p ^ 3"
| "easeRatio Power2InOut p =
     (if p < 0.5 then (p * 2) ^ 3 / 2 else 1 - ((1 - p) * 2) ^ 3 / 2)"
| "easeRatio (BackOut c) p =
     (if p = 0 then 0 else (p - 1) * (p - 1) * ((c + 1) * (p - 1) + c) + 1)"

definition lerp :: "vec3 \<Rightarrow> vec3 \<Rightarrow> real \<Rightarrow> vec3" where
  "lerp a b r =
     Vec3 (vx a + (vx b - vx a) * r) (vy a + (vy b - vy a) * r) (vz a + (vz b - vz a) * r)"

text \<open>
  The property a tween animates. Tweens are made for objects of the lists only, and the
  lists never change their length, so the index is in range wherever a tween exists.
\<close>

fun getTarget :: "target \<Rightarrow> state \<Rightarrow> vec3" where
  "getTarget (ScaleOf n k) s = scale (objects s n ! k)"
| "getTarget CameraPosition s = cam_position s"
| "getTarget TargetPosition s = targetPosition s"

fun setTarget :: "target \<Rightarrow> vec3 \<Rightarrow> state \<Rightarrow> state" where
  "setTarget (ScaleOf n k) v s =
     s\<lparr>objects := (objects s)(n := (objects s n)[k := (objects s n ! k)\<lparr>scale := v\<rparr>])\<rparr>"
| "setTarget CameraPosition v s = s\<lparr>cam_position := v\<rparr>"
| "setTarget TargetPosition v s = s\<lparr>targetPosition := v\<rparr>"

text \<open>
  One tween on one tick at timeline time \<open>t\<close>: not yet started, completed (the end
  value is written and the tween is dropped), or running.
\<close>

definition renderTween :: "real \<Rightarrow> tween \<Rightarrow> state \<Rightarrow> tween option \<times> state" where
  "renderTween t tw s =
     (if t < tw_start tw then (Some tw, s)
      else
        let from = (case tw_from tw of None \<Rightarrow> getTarget (tw_target tw) s | Some f \<Rightarrow> f)
        in if tw_start tw + tw_duration tw \<le> t
           then (None, setTarget (tw_target tw) (tw_to tw) s)
           else (Some (tw\<lparr>tw_from := Some from\<rparr>),
                 setTarget (tw_target tw)
                   (lerp from (tw_to tw)
                      (easeRatio (tw_ease tw) ((t - tw_start tw) / tw_duration tw))) s))"

fun renderAll :: "real \<Rightarrow> tween list \<Rightarrow> state \<Rightarrow> tween list \<times> state" where
  "renderAll t [] s = ([], s)"
| "renderAll t (tw # tws) s =
     (case renderTween t tw s of
        (r, s1) \<Rightarrow>
          (case renderAll t tws s1 of
             (rs, s2) \<Rightarrow> ((case r of None \<Rightarrow> rs | Some tw' \<Rightarrow> tw' # rs), s2)))"

definition gsapTick :: "real \<Rightarrow> state \<Rightarrow> state" where
  "gsapTick t s =
     (case renderAll t (tweens s) s of (rest, s') \<Rightarrow> s'\<lparr>tweens := rest, time := t\<rparr>)"

section \<open>CameraController\<close>

definition sectionPositions :: "(vec3 \<times> vec3) list" where
  "sectionPositions =
     [(Vec3 0 0 15, Vec3 0 0 0),
      (Vec3 (-8) 2 12, Vec3 (-8) 0 0),
      (Vec3 8 (-2) 12, Vec3 8 0 0),
      (Vec3 0 5 10, Vec3 0 3 0),
      (Vec3 0 (-3) 13, Vec3 0 (-3) 0)]"

definition sectionPosition_at :: "int \<Rightarrow> (vec3 \<times> vec3) option" where
  "sectionPosition_at i =
     (if 0 \<le> i \<and> i < int (length sectionPositions)
      then Some (sectionPositions ! nat i) else None)"

definition parallaxStrength :: real where
  "parallaxStrength = 0.01"

definition moveToSection :: "int \<Rightarrow> state \<Rightarrow> state" where
  "moveToSection sectionIndex s =
     (case sectionPosition_at sectionIndex of
        None \<Rightarrow> s
      | Some (p, lookAt) \<Rightarrow>
          gsap_to TargetPosition lookAt 1.5 0 Power2InOut
            (gsap_to CameraPosition p 1.5 0 Power2InOut s))"

definition handleMouseMove :: "real \<Rightarrow> real \<Rightarrow> state \<Rightarrow> state" where
  "handleMouseMove clientX clientY s =
     s\<lparr>mousePosX := (clientX / innerWidth s) * 2 - 1,
       mousePosY := - (clientY / innerHeight s) * 2 + 1\<rparr>"

definition CameraController_update :: "real \<Rightarrow> state \<Rightarrow> state" where
  "CameraController_update deltaTime s =
     (let targetX = vx (cam_position s) + mousePosX s * parallaxStrength;
          targetY = vy (cam_position s) + mousePosY s * parallaxStrength;
          x' = vx (cam_position s) + (targetX - vx (cam_position s)) * 0.05;
          y' = vy (cam_position s) + (targetY - vy (cam_position s)) * 0.05
      in s\<lparr>cam_position := (cam_position s)\<lparr>vx := x', vy := y'\<rparr>,
           cam_lookAt := Some (targetPosition s)\<rparr>)"

section \<open>PortfolioObjects\<close>

definition hideTweens :: "state \<Rightarrow> tween list" where
  "hideTweens s =
     map (\<lambda>(n, k). newTween (ScaleOf n k) (Vec3 0 0 0) 0.5 0 Power2In (time s))
       (allRefs (objects s))"

definition showTweens :: "sectionName \<Rightarrow> state \<Rightarrow> tween list" where
  "showTweens n s =
     map (\<lambda>index. newTween (ScaleOf n index) (Vec3 1 1 1) 0.5 (real index * 0.05)
                   (BackOut 1.7) (time s))
       [0..<length (objects s n)]"

text \<open>
  \<open>this.objects[sectionNames[sectionIndex]]\<close> is \<open>undefined\<close> for an index outside
  0..4, and \<open>undefined.forEach\<close> throws a TypeError, after the hide tweens were made.
\<close>

definition updateActiveSection :: "int \<Rightarrow> state \<Rightarrow> outcome" where
  "updateActiveSection sectionIndex s =
     (let s1 = s\<lparr>po_currentSection := sectionIndex\<rparr>;
          s2 = s1\<lparr>tweens := tweens s1 @ hideTweens s1\<rparr>
      in case sectionName_at sectionIndex of
           None \<Rightarrow> Throws TypeError s2
         | Some n \<Rightarrow> Returns (s2\<lparr>tweens := tweens s2 @ showTweens n s2\<rparr>))"

text \<open>Arithmetic on numbers that may be NaN.\<close>

definition num_add :: "real option \<Rightarrow> real option \<Rightarrow> real option" where
  "num_add a b = (case a of None \<Rightarrow> None | Some x \<Rightarrow> map_option (\<lambda>y. x + y) b)"

definition num_mul :: "real option \<Rightarrow> real option \<Rightarrow> real option" where
  "num_mul a b = (case a of None \<Rightarrow> None | Some x \<Rightarrow> map_option (\<lambda>y. x * y) b)"

text \<open>\<open>list.forEach((obj, index) => ...)\<close> where the callback changes \<open>obj\<close>.\<close>

definition forEachIndexed :: "(nat \<Rightarrow> 'a \<Rightarrow> 'a) \<Rightarrow> 'a list \<Rightarrow> 'a list" where
  "forEachIndexed f xs = map (\<lambda>(index, obj). f index obj) (enumerate 0 xs)"

definition updateHero :: "real \<Rightarrow> nat \<Rightarrow> prim \<Rightarrow> prim" where
  "updateHero elapsedTime index obj =
     (if index = 0
      then obj\<lparr>rotation := (rotation obj)\<lparr>vx := elapsedTime * 0.3, vy := elapsedTime * 0.5\<rparr>\<rparr>
      else if index \<le> 8
      then
        (let angle = num_add (ud_angle obj) (Some (elapsedTime * 0.5))
         in obj\<lparr>position := (position obj)
                  \<lparr>px := num_mul (map_option cos angle) (ud_radius obj),
                   pz := num_mul (map_option sin angle) (ud_radius obj),
                   py := Some (sin (elapsedTime * 0.5 + real index) * 0.5)\<rparr>\<rparr>)
      else obj\<lparr>rotation := (rotation obj)\<lparr>vy := elapsedTime * 0.3\<rparr>\<rparr>)"

definition updateAbout :: "real \<Rightarrow> prim \<Rightarrow> prim" where
  "updateAbout elapsedTime obj =
     (case ud_floatOffset obj of
        Some floatOffset \<Rightarrow>
          obj\<lparr>position := (position obj)
                 \<lparr>py := num_add (py (position obj))
                          (Some (sin (elapsedTime * 2 + floatOffset) * 0.002))\<rparr>,
              rotation := (rotation obj)\<lparr>vx := elapsedTime * 0.5, vy := elapsedTime * 0.3\<rparr>\<rparr>
      | None \<Rightarrow> obj\<lparr>rotation := (rotation obj)\<lparr>vz := elapsedTime * 0.2\<rparr>\<rparr>)"

definition updateProjects :: "real \<Rightarrow> prim \<Rightarrow> prim" where
  "updateProjects elapsedTime obj =
     (case ud_hoverY obj of
        Some hoverY \<Rightarrow>
          obj\<lparr>position := (position obj)\<lparr>py := Some (hoverY + sin (elapsedTime * 2) * 0.1)\<rparr>\<rparr>
      | None \<Rightarrow> obj)"

definition updateSkills :: "real \<Rightarrow> prim \<Rightarrow> prim" where
  "updateSkills elapsedTime obj =
     (case ud_orbit obj of
        Some orbit \<Rightarrow>
          (let angle = num_add (ud_angle obj) (num_mul (Some elapsedTime) (ud_speed obj))
           in obj\<lparr>position := (position obj)
                    \<lparr>px := num_mul (map_option cos angle) (ud_radius obj),
                     pz := num_mul (map_option sin angle) (ud_radius obj)\<rparr>,
                 rotation := (rotation obj)\<lparr>vy := elapsedTime * 2\<rparr>\<rparr>)
      | None \<Rightarrow>
          obj\<lparr>rotation := (rotation obj)\<lparr>vx := elapsedTime * 0.5, vy := elapsedTime * 0.7\<rparr>\<rparr>)"

definition updateContact :: "real \<Rightarrow> prim \<Rightarrow> prim" where
  "updateContact elapsedTime obj =
     (case ud_delay obj of
        Some delay \<Rightarrow>
          (let sc = 1 + sin (elapsedTime * 2 - delay) * 0.2
           in obj\<lparr>scale := Vec3 sc sc sc\<rparr>)
      | None \<Rightarrow>
          obj\<lparr>rotation := (rotation obj)\<lparr>vy := sin elapsedTime * 0.2\<rparr>,
              position := (position obj)\<lparr>py := Some (- 3 + sin (elapsedTime * 2) * 0.1)\<rparr>\<rparr>)"

fun updateSection :: "real \<Rightarrow> sectionName \<Rightarrow> prim list \<Rightarrow> prim list" where
  "updateSection e Hero xs = forEachIndexed (updateHero e) xs"
| "updateSection e About xs = map (updateAbout e) xs"
| "updateSection e Projects xs = map (updateProjects e) xs"
| "updateSection e Skills xs = map (updateSkills e) xs"
| "updateSection e Contact xs = map (updateContact e) xs"

definition PortfolioObjects_update :: "real \<Rightarrow> real \<Rightarrow> state \<Rightarrow> state" where
  "PortfolioObjects_update elapsedTime deltaTime s =
     s\<lparr>objects := (\<lambda>n. updateSection elapsedTime n (objects s n))\<rparr>"

section \<open>InteractionManager\<close>

definition modifyObject :: "objref \<Rightarrow> (prim \<Rightarrow> prim) \<Rightarrow> state \<Rightarrow> state" where
  "modifyObject r f s =
     (case r of (n, k) \<Rightarrow>
        s\<lparr>objects := (objects s)(n := (objects s n)[k := f (objects s n ! k)])\<rparr>)"

definition objectAt :: "objref \<Rightarrow> state \<Rightarrow> prim" where
  "objectAt r s = (case r of (n, k) \<Rightarrow> objects s n ! k)"

definition onMouseMove :: "real \<Rightarrow> real \<Rightarrow> state \<Rightarrow> state" where
  "onMouseMove clientX clientY s =
     s\<lparr>mouse_x := (clientX / innerWidth s) * 2 - 1,
       mouse_y := - (clientY / innerHeight s) * 2 + 1\<rparr>"

text \<open>
  \<open>clearHover\<close>. The hovered object always has a material, so the test left is the
  one on the stored snapshot.
\<close>

definition clearHover :: "state \<Rightarrow> state" where
  "clearHover s =
     (case hoveredObject s of
        None \<Rightarrow> s
      | Some r \<Rightarrow>
          (let s1 = s\<lparr>cursor := ''default''\<rparr>;
               s2 = (case ud_originalEmissiveIntensity (objectAt r s1) of
                       None \<Rightarrow> s1
                     | Some original \<Rightarrow>
                         modifyObject r (\<lambda>obj. obj\<lparr>emissiveIntensity := Some original\<rparr>) s1)
           in s2\<lparr>hoveredObject := None\<rparr>))"

text \<open>\<open>v || 0\<close> on a number or \<open>undefined\<close>.\<close>

definition orZero :: "real option \<Rightarrow> real" where
  "orZero v = (case v of None \<Rightarrow> 0 | Some x \<Rightarrow> if x = 0 then 0 else x)"

definition handleObjectHover :: "objref \<Rightarrow> state \<Rightarrow> state" where
  "handleObjectHover r s =
     (if hoveredObject s \<noteq> Some r
      then
        (let s1 = clearHover s;
             s2 = s1\<lparr>hoveredObject := Some r, cursor := ''pointer''\<rparr>
         in modifyObject r
              (\<lambda>obj. (obj\<lparr>ud_originalEmissiveIntensity := Some (orZero (emissiveIntensity obj))\<rparr>)
                        \<lparr>emissiveIntensity :=
                           (case emissiveIntensity obj of None \<Rightarrow> None | Some _ \<Rightarrow> Some 1)\<rparr>)
              s2)
      else s)"

text \<open>
  \<open>animateRipple\<close> at wall-clock time \<open>now\<close> (milliseconds), for a ripple whose callback
  is requested.
\<close>

definition animateRipple :: "real \<Rightarrow> ripple \<Rightarrow> ripple" where
  "animateRipple now r =
     (if rp_animating r
      then
        (let elapsed = now - rp_startTime r; progress = elapsed / 1000
         in if progress < 1
            then r\<lparr>rp_scale := Vec3 (1 + progress * 3) (1 + progress * 3) 1,
                   rp_opacity := 1 - progress\<rparr>
            else r\<lparr>rp_inScene := False, rp_geometryDisposed := True,
                   rp_materialDisposed := True, rp_animating := False\<rparr>)
      else r)"

definition newRipple :: "pos \<Rightarrow> real \<Rightarrow> ripple" where
  "newRipple p now =
     \<lparr>rp_position = p, rp_scale = Vec3 1 1 1, rp_opacity = 1, rp_startTime = now,
      rp_inScene = True, rp_animating = True, rp_geometryDisposed = False,
      rp_materialDisposed = False\<rparr>"

definition createRipple :: "real \<Rightarrow> pos \<Rightarrow> state \<Rightarrow> state" where
  "createRipple now p s = s\<lparr>ripples := ripples s @ [animateRipple now (newRipple p now)]\<rparr>"

definition multiplyScalar :: "vec3 \<Rightarrow> real \<Rightarrow> vec3" where
  "multiplyScalar v c = Vec3 (vx v * c) (vy v * c) (vz v * c)"

definition handleObjectClick :: "real \<Rightarrow> objref \<Rightarrow> state \<Rightarrow> state" where
  "handleObjectClick now r s =
     (let s1 = createRipple now (position (objectAt r s)) s;
          originalScale = scale (objectAt r s1);
          s2 = modifyObject r (\<lambda>obj. obj\<lparr>scale := multiplyScalar (scale obj) 1.2\<rparr>) s1
      in s2\<lparr>pulseTimers := pulseTimers s2 @ [(now + 150, r, originalScale)]\<rparr>)"

text \<open>
  The ray cast is the library's. \<open>ray\<close> stands for it: given the list of objects to
  test, it gives the first entry of the list of intersections, if there is one: the
  nearest object hit (\<open>intersects[0].object\<close>, by its index in the list tested) and
  the point where the ray meets it (\<open>intersects[0].point\<close>).
\<close>

record intersection =
  ix_object :: nat
  ix_point :: pos

definition intersectObjects ::
  "(prim list \<Rightarrow> intersection option) \<Rightarrow> prim list \<Rightarrow> intersection option" where
  "intersectObjects ray objs =
     (case ray objs of
        None \<Rightarrow> None
      | Some hit \<Rightarrow> if ix_object hit < length objs then Some hit else None)"

text \<open>
  \<open>checkIntersections\<close>: with a current section outside 0..4 the list is
  \<open>undefined\<close> and the ray cast throws on it. Of the first intersection only the
  object is read and handed to the handlers; its point is not.
\<close>

definition checkIntersections ::
  "bool \<Rightarrow> real \<Rightarrow> (prim list \<Rightarrow> intersection option) \<Rightarrow> state \<Rightarrow> outcome" where
  "checkIntersections isClick now ray s =
     (case sectionName_at (po_currentSection s) of
        None \<Rightarrow> Throws TypeError s
      | Some n \<Rightarrow>
          (case intersectObjects ray (objects s n) of
             Some hit \<Rightarrow>
               Returns (if isClick then handleObjectClick now (n, ix_object hit) s
                        else handleObjectHover (n, ix_object hit) s)
           | None \<Rightarrow> Returns (clearHover s)))"

definition onTouchStart ::
  "(real \<times> real) list \<Rightarrow> real \<Rightarrow> (prim list \<Rightarrow> intersection option) \<Rightarrow> state \<Rightarrow> outcome" where
  "onTouchStart touches now ray s =
     (case touches of
        [] \<Rightarrow> Returns s
      | (clientX, clientY) # _ \<Rightarrow>
          checkIntersections False now ray
            (s\<lparr>mouse_x := (clientX / innerWidth s) * 2 - 1,
               mouse_y := - (clientY / innerHeight s) * 2 + 1\<rparr>))"

definition onClick :: "real \<Rightarrow> (prim list \<Rightarrow> intersection option) \<Rightarrow> state \<Rightarrow> outcome" where
  "onClick now ray s = checkIntersections True now ray s"

definition InteractionManager_update :: "real \<Rightarrow> (prim list \<Rightarrow> intersection option) \<Rightarrow> state \<Rightarrow> outcome" where
  "InteractionManager_update now ray s = checkIntersections False now ray s"

text \<open>The \<open>setTimeout\<close> callbacks of the click pulse that are due at time \<open>now\<close>.\<close>

fun firePulseTimers :: "real \<Rightarrow> pulseTimer list \<Rightarrow> state \<Rightarrow> state" where
  "firePulseTimers now [] s = s\<lparr>pulseTimers := []\<rparr>"
| "firePulseTimers now ((deadline, r, original) # ts) s =
     (if deadline \<le> now
      then firePulseTimers now ts (modifyObject r (\<lambda>obj. obj\<lparr>scale := original\<rparr>) s)
      else (let s' = firePulseTimers now ts s
            in s'\<lparr>pulseTimers := (deadline, r, original) # pulseTimers s'\<rparr>))"

section \<open>Portfolio3D\<close>

definition navigateToSection :: "int \<Rightarrow> state \<Rightarrow> outcome" where
  "navigateToSection sectionIndex s =
     (if sectionIndex = currentSection s then Returns s
      else
        (let s1 = s\<lparr>currentSection := sectionIndex\<rparr>;
             s2 = s1\<lparr>sections :=
                      map (\<lambda>index. int index = sectionIndex) [0..<length (sections s1)]\<rparr>;
             s3 = moveToSection sectionIndex s2
         in updateActiveSection sectionIndex s3))"

text \<open>
  The wheel listener: \<open>clearTimeout\<close>, then \<open>setTimeout(callback, 100)\<close> at wall-clock
  time \<open>now\<close> (milliseconds); the callback keeps the event's \<open>deltaY\<close>.
\<close>

definition wheel :: "real \<Rightarrow> real \<Rightarrow> state \<Rightarrow> state" where
  "wheel now deltaY s = s\<lparr>scrollTimeout := Some (now + 100, deltaY)\<rparr>"

definition scrollCallback :: "real \<Rightarrow> state \<Rightarrow> outcome" where
  "scrollCallback deltaY s =
     (if deltaY > 0 \<and> currentSection s < 4 then navigateToSection (currentSection s + 1) s
      else if deltaY < 0 \<and> currentSection s > 0 then navigateToSection (currentSection s - 1) s
      else Returns s)"

text \<open>The timer of the wheel listener at wall-clock time \<open>now\<close>: it runs once it is due.\<close>

definition fireScrollTimeout :: "real \<Rightarrow> state \<Rightarrow> outcome" where
  "fireScrollTimeout now s =
     (case scrollTimeout s of
        None \<Rightarrow> Returns s
      | Some (deadline, deltaY) \<Rightarrow>
          if deadline \<le> now then scrollCallback deltaY (s\<lparr>scrollTimeout := None\<rparr>)
          else Returns s)"

text \<open>
  One display frame. \<open>fi_time\<close> is the timeline time of the animation library,
  \<open>fi_elapsed\<close> and \<open>fi_delta\<close> are the readings of the \<open>THREE.Clock\<close>, \<open>fi_wall\<close> is
  \<open>Date.now()\<close>, \<open>fi_ray\<close> the ray cast of this frame.
\<close>

record frameInput =
  fi_time :: real
  fi_elapsed :: real
  fi_delta :: real
  fi_wall :: real
  fi_ray :: "prim list \<Rightarrow> intersection option"

definition animate :: "frameInput \<Rightarrow> state \<Rightarrow> outcome" where
  "animate fi s =
     InteractionManager_update (fi_wall fi) (fi_ray fi)
       (CameraController_update (fi_delta fi)
          (PortfolioObjects_update (fi_elapsed fi) (fi_delta fi) s))"

definition rippleFrame :: "real \<Rightarrow> state \<Rightarrow> state" where
  "rippleFrame now s = s\<lparr>ripples := map (animateRipple now) (ripples s)\<rparr>"

text \<open>
  The frame callbacks of one frame, in the order the model takes them: the library's
  tick, \<open>animate\<close>, and the ripples' callbacks, which run also when \<open>animate\<close> has
  thrown (then the render at the end of \<open>animate\<close> is skipped). Timers
  (\<open>fireScrollTimeout\<close>, \<open>firePulseTimers\<close>) run between frames.
\<close>

definition frame :: "frameInput \<Rightarrow> state \<Rightarrow> outcome" where
  "frame fi s =
     (case animate fi (gsapTick (fi_time fi) s) of
        Returns s' \<Rightarrow> Returns (rippleFrame (fi_wall fi) s')
      | Throws e s' \<Rightarrow> Throws e (rippleFrame (fi_wall fi) s'))"

text \<open>A run of frames, up to the first uncaught error.\<close>

fun run :: "frameInput list \<Rightarrow> state \<Rightarrow> outcome" where
  "run [] s = Returns s"
| "run (fi # fis) s =
     (case frame fi s of
        Returns s' \<Rightarrow> run fis s'
      | Throws e s' \<Rightarrow> Throws e s')"

section \<open>Observation\<close>

text \<open>The state a call leaves behind, whether it returned or threw.\<close>

definition stateOf :: "outcome \<Rightarrow> state" where
  "stateOf out = (case out of Returns s \<Rightarrow> s | Throws e s \<Rightarrow> s)"

section \<open>Ripple resources\<close>

text \<open>
  A ripple that was removed from the scene, with geometry and material disposed and no
  callback requested; and the number of ripple geometries and materials not disposed.
\<close>

definition gone :: "ripple \<Rightarrow> bool" where
  "gone r = (\<not> rp_inScene r \<and> rp_geometryDisposed r \<and> rp_materialDisposed r \<and> \<not> rp_animating r)"

definition rippleResources :: "state \<Rightarrow> nat" where
  "rippleResources s =
     length (filter (\<lambda>r. \<not> rp_geometryDisposed r) (ripples s))
     + length (filter (\<lambda>r. \<not> rp_materialDisposed r) (ripples s))"

section \<open>Destinations of tweened properties\<close>

text \<open>
  A tween completes on the first tick at or after its end. \<open>dest\<close> is the value a
  property is heading for: the end value of the last tween on it, or its present value
  when no tween is on it. A list of tweens is \<open>orderly\<close> when, on each property, a
  later tween does not end before an earlier one.
\<close>

definition tw_end :: "tween \<Rightarrow> real" where
  "tw_end tw = tw_start tw + tw_duration tw"

definition completes :: "real \<Rightarrow> tween \<Rightarrow> bool" where
  "completes t tw = (tw_start tw \<le> t \<and> tw_end tw \<le> t)"

fun dest :: "tween list \<Rightarrow> target \<Rightarrow> vec3 \<Rightarrow> vec3" where
  "dest [] g v = v"
| "dest (tw # tws) g v = dest tws g (if tw_target tw = g then tw_to tw else v)"

definition destination :: "state \<Rightarrow> target \<Rightarrow> vec3" where
  "destination s g = dest (tweens s) g (getTarget g s)"

fun orderly :: "tween list \<Rightarrow> bool" where
  "orderly [] = True"
| "orderly (tw # tws) =
     (0 \<le> tw_duration tw
      \<and> list_all (\<lambda>tw'. tw_target tw' = tw_target tw \<longrightarrow> tw_end tw \<le> tw_end tw') tws
      \<and> orderly tws)"

text \<open>
  A scale target is valid when its index is inside its section's list.
\<close>

fun validTarget :: "target \<Rightarrow> state \<Rightarrow> bool" where
  "validTarget (ScaleOf n k) s = (k < length (objects s n))"
| "validTarget CameraPosition s = True"
| "validTarget TargetPosition s = True"

text \<open>
  A tweened property is \<open>stable\<close> when nothing but its tweens writes it during a frame:
  a scale other than that of a contact ring (an object of the contact section with a
  \<open>delay\<close>, whose scale \<open>update\<close> sets on every frame), the look-at target, and the
  camera position while the pointer is at the centre (no parallax step).
\<close>

fun stable :: "target \<Rightarrow> state \<Rightarrow> bool" where
  "stable (ScaleOf n k) s = (\<not> (n = Contact \<and> ud_delay (objects s n ! k) \<noteq> None))"
| "stable CameraPosition s = (mousePosX s = 0 \<and> mousePosY s = 0)"
| "stable TargetPosition s = True"

text \<open>
  The two tweens \<open>moveToSection\<close> starts, as a list.
\<close>

definition cameraTweens :: "int \<Rightarrow> state \<Rightarrow> tween list" where
  "cameraTweens j s =
     (case sectionPosition_at j of
        None \<Rightarrow> []
      | Some (p, lookAt) \<Rightarrow>
          [newTween CameraPosition p 1.5 0 Power2InOut (time s),
           newTween TargetPosition lookAt 1.5 0 Power2InOut (time s)])"

section \<open>Supporting lemmas\<close>

lemma stateOf_simps [simp]: "stateOf (Returns s) = s" "stateOf (Throws e s) = s"
  by (simp_all add: stateOf_def)

lemma normalized_range:
  fixes c w :: real
  assumes "0 < w"
  shows "(- 1 \<le> (c / w) * 2 - 1 \<and> (c / w) * 2 - 1 \<le> 1) = (0 \<le> c \<and> c \<le> w)"
  using assms by (auto simp: field_simps)

lemma normalized_range_y:
  fixes c h :: real
  assumes "0 < h"
  shows "(- 1 \<le> - (c / h) * 2 + 1 \<and> - (c / h) * 2 + 1 \<le> 1) = (0 \<le> c \<and> c \<le> h)"
  using assms by (auto simp: field_simps)

lemma modifyObject_fields [simp]:
  "mouse_x (modifyObject r f s) = mouse_x s"
  "mouse_y (modifyObject r f s) = mouse_y s"
  "currentSection (modifyObject r f s) = currentSection s"
  "po_currentSection (modifyObject r f s) = po_currentSection s"
  "tweens (modifyObject r f s) = tweens s"
  "ripples (modifyObject r f s) = ripples s"
  "hoveredObject (modifyObject r f s) = hoveredObject s"
  "cam_position (modifyObject r f s) = cam_position s"
  "targetPosition (modifyObject r f s) = targetPosition s"
  "cam_lookAt (modifyObject r f s) = cam_lookAt s"
  "mousePosX (modifyObject r f s) = mousePosX s"
  "mousePosY (modifyObject r f s) = mousePosY s"
  "time (modifyObject r f s) = time s"
  "sections (modifyObject r f s) = sections s"
  "scrollTimeout (modifyObject r f s) = scrollTimeout s"
  "pulseTimers (modifyObject r f s) = pulseTimers s"
  "cursor (modifyObject r f s) = cursor s"
  by (simp_all add: modifyObject_def split: prod.splits)

lemma clearHover_fields [simp]:
  "mouse_x (clearHover s) = mouse_x s"
  "mouse_y (clearHover s) = mouse_y s"
  "currentSection (clearHover s) = currentSection s"
  "po_currentSection (clearHover s) = po_currentSection s"
  "tweens (clearHover s) = tweens s"
  "ripples (clearHover s) = ripples s"
  "cam_position (clearHover s) = cam_position s"
  "targetPosition (clearHover s) = targetPosition s"
  "cam_lookAt (clearHover s) = cam_lookAt s"
  "mousePosX (clearHover s) = mousePosX s"
  "mousePosY (clearHover s) = mousePosY s"
  "time (clearHover s) = time s"
  "sections (clearHover s) = sections s"
  "scrollTimeout (clearHover s) = scrollTimeout s"
  "pulseTimers (clearHover s) = pulseTimers s"
  by (simp_all add: clearHover_def Let_def split: option.splits)

lemma handleObjectHover_fields [simp]:
  "mouse_x (handleObjectHover r s) = mouse_x s"
  "mouse_y (handleObjectHover r s) = mouse_y s"
  "currentSection (handleObjectHover r s) = currentSection s"
  "po_currentSection (handleObjectHover r s) = po_currentSection s"
  "tweens (handleObjectHover r s) = tweens s"
  "ripples (handleObjectHover r s) = ripples s"
  "cam_position (handleObjectHover r s) = cam_position s"
  "targetPosition (handleObjectHover r s) = targetPosition s"
  "cam_lookAt (handleObjectHover r s) = cam_lookAt s"
  "mousePosX (handleObjectHover r s) = mousePosX s"
  "mousePosY (handleObjectHover r s) = mousePosY s"
  "time (handleObjectHover r s) = time s"
  "sections (handleObjectHover r s) = sections s"
  "scrollTimeout (handleObjectHover r s) = scrollTimeout s"
  "pulseTimers (handleObjectHover r s) = pulseTimers s"
  by (simp_all add: handleObjectHover_def Let_def)

lemma handleObjectClick_fields [simp]:
  "mouse_x (handleObjectClick now r s) = mouse_x s"
  "mouse_y (handleObjectClick now r s) = mouse_y s"
  "currentSection (handleObjectClick now r s) = currentSection s"
  "po_currentSection (handleObjectClick now r s) = po_currentSection s"
  "tweens (handleObjectClick now r s) = tweens s"
  "hoveredObject (handleObjectClick now r s) = hoveredObject s"
  by (simp_all add: handleObjectClick_def createRipple_def Let_def)

lemma checkIntersections_mouse:
  "mouse_x (stateOf (checkIntersections c now ray s)) = mouse_x s"
  "mouse_y (stateOf (checkIntersections c now ray s)) = mouse_y s"
  by (simp_all add: checkIntersections_def split: option.splits)

lemma sectionName_at_valid: "0 \<le> i \<Longrightarrow> i \<le> 4 \<Longrightarrow> \<exists>n. sectionName_at i = Some n"
  by (simp add: sectionName_at_def sectionNames_def)

section \<open>Pointer coordinates\<close>

text \<open>
  Claim C4, as stated: after every pointer-move or touch-start event the stored
  normalized pointer coordinates lie within [-1, 1] on both axes, for arbitrary client
  coordinates. The handlers do not clamp: a pointer at \<open>clientX = 2000\<close> in a window
  1000 wide is stored as 3.
\<close>

theorem C4_counterexample:
  "\<not> (mouse_x (onMouseMove 2000 0 (init [] 1000 800)) \<le> 1)"
  by (simp add: onMouseMove_def init_def)

text \<open>
  Claim C4, amended: in a window of positive size, \<open>onMouseMove\<close>, \<open>onTouchStart\<close>
  (for its first touch point; with no touch point it changes nothing) and
  \<open>handleMouseMove\<close> store \<open>x = 2 * clientX / innerWidth - 1\<close> and
  \<open>y = 1 - 2 * clientY / innerHeight\<close> without clamping; the stored \<open>x\<close> lies within
  [-1, 1] exactly when \<open>0 \<le> clientX \<le> innerWidth\<close>, and the stored \<open>y\<close> exactly when
  \<open>0 \<le> clientY \<le> innerHeight\<close>.
\<close>

theorem C4_pointer:
  assumes "0 < innerWidth s" and "0 < innerHeight s"
  shows "mouse_x (onMouseMove clientX clientY s) = (clientX / innerWidth s) * 2 - 1
       \<and> mouse_y (onMouseMove clientX clientY s) = 1 - (clientY / innerHeight s) * 2
       \<and> mouse_x (stateOf (onTouchStart ((clientX, clientY) # touches) now ray s))
           = (clientX / innerWidth s) * 2 - 1
       \<and> mouse_y (stateOf (onTouchStart ((clientX, clientY) # touches) now ray s))
           = 1 - (clientY / innerHeight s) * 2
       \<and> stateOf (onTouchStart [] now ray s) = s
       \<and> mousePosX (handleMouseMove clientX clientY s) = (clientX / innerWidth s) * 2 - 1
       \<and> mousePosY (handleMouseMove clientX clientY s) = 1 - (clientY / innerHeight s) * 2
       \<and> ((- 1 \<le> mouse_x (onMouseMove clientX clientY s) \<and> mouse_x (onMouseMove clientX clientY s) \<le> 1)
            = (0 \<le> clientX \<and> clientX \<le> innerWidth s))
       \<and> ((- 1 \<le> mouse_y (onMouseMove clientX clientY s) \<and> mouse_y (onMouseMove clientX clientY s) \<le> 1)
            = (0 \<le> clientY \<and> clientY \<le> innerHeight s))"
  using normalized_range [OF assms(1), of clientX] normalized_range_y [OF assms(2), of clientY]
  by (simp add: onMouseMove_def onTouchStart_def handleMouseMove_def checkIntersections_mouse)

theorem C4_pointer_witness:
  "mouse_x (onMouseMove 480 270 (init [] 1920 1080)) = - (1 / 2)
   \<and> mouse_y (onMouseMove 480 270 (init [] 1920 1080)) = 1 / 2
   \<and> mouse_x (onMouseMove 2000 0 (init [] 1000 800)) = 3"
  using C4_pointer [of "init [] 1920 1080" 480 270 "[]" 0 "\<lambda>_. None"]
        C4_pointer [of "init [] 1000 800" 2000 0 "[]" 0 "\<lambda>_. None"]
  by (simp add: init_def)

section \<open>Repeated navigation\<close>

text \<open>
  Claim C6: for every section index \<open>i\<close> in 0..4, \<open>navigateToSection i\<close> returns with
  \<open>i\<close> current, and a second \<open>navigateToSection i\<close> returns the very same state: the
  current index, the page's active flags, the camera and its tweens and the visibility
  tweens are all unchanged by it.
\<close>

theorem C6_idempotent:
  assumes "0 \<le> i" and "i \<le> 4"
  shows "\<exists>s'. navigateToSection i s = Returns s' \<and> currentSection s' = i
           \<and> navigateToSection i s' = Returns s'"
proof (cases "i = currentSection s")
  case True
  then show ?thesis by (simp add: navigateToSection_def)
next
  case False
  from sectionName_at_valid [OF assms] obtain n where n: "sectionName_at i = Some n" ..
  with False show ?thesis
    by (simp add: navigateToSection_def updateActiveSection_def Let_def moveToSection_def
        gsap_to_def split: option.splits prod.splits)
qed

theorem C6_idempotent_witness:
  "\<exists>s'. navigateToSection 2 (init [True, False, False, False, False] 1920 1080) = Returns s'
        \<and> currentSection s' = 2 \<and> navigateToSection 2 s' = Returns s'"
  using C6_idempotent [of 2 "init [True, False, False, False, False] 1920 1080"] by simp

section \<open>Orbiting objects\<close>

lemma forEachIndexed_length [simp]: "length (forEachIndexed f xs) = length xs"
  by (simp add: forEachIndexed_def)

lemma forEachIndexed_nth [simp]: "k < length xs \<Longrightarrow> forEachIndexed f xs ! k = f k (xs ! k)"
  by (simp add: forEachIndexed_def nth_enumerate_eq)

lemma updateHero_orbit:
  assumes "1 \<le> k" "k \<le> 8" "ud_angle obj = Some a" "ud_radius obj = Some r"
  shows "position (updateHero T k obj)
           = Pos (cos (a + T * 0.5) * r) (sin (T * 0.5 + real k) * 0.5) (sin (a + T * 0.5) * r)"
    and "ud_angle (updateHero T k obj) = Some a"
    and "ud_radius (updateHero T k obj) = Some r"
  using assms by (simp_all add: updateHero_def Let_def num_add_def num_mul_def Pos_def)

lemma updateSkills_orbit:
  assumes "ud_orbit obj = Some orb" "ud_angle obj = Some a" "ud_radius obj = Some r" "ud_speed obj = Some v"
  shows "position (updateSkills T obj)
           = \<lparr>px = Some (cos (a + T * v) * r), py = py (position obj), pz = Some (sin (a + T * v) * r)\<rparr>"
    and "ud_angle (updateSkills T obj) = Some a"
    and "ud_radius (updateSkills T obj) = Some r"
    and "ud_speed (updateSkills T obj) = Some v"
    and "ud_orbit (updateSkills T obj) = Some orb"
  using assms by (simp_all add: updateSkills_def Let_def num_add_def num_mul_def)

text \<open>
  Claim C7: for every orbit-tagged object and every elapsed time \<open>T\<close>, the position
  the per-frame update produces is a function of \<open>T\<close> and the stored phase alone. For
  the hero spheres (indices 1..8) it is
  \<open>(cos (angle + T * 0.5) * radius, sin (T * 0.5 + index) * 0.5, sin (angle + T * 0.5) * radius)\<close>;
  for the skill orbs it is \<open>(cos (angle + T * speed) * radius, y, sin (angle + T * speed) * radius)\<close>
  with the height \<open>y\<close> left as it is. An update at any other time before it changes
  nothing of the result (no drift), and the stored angle is not changed.
\<close>

theorem C7_orbit:
  "(1 \<le> k \<and> k \<le> 8 \<and> k < length (objects s Hero)
      \<and> ud_angle (objects s Hero ! k) = Some a \<and> ud_radius (objects s Hero ! k) = Some r
    \<longrightarrow> position (objects (PortfolioObjects_update T d s) Hero ! k)
          = Pos (cos (a + T * 0.5) * r) (sin (T * 0.5 + real k) * 0.5) (sin (a + T * 0.5) * r)
      \<and> position (objects (PortfolioObjects_update T d (PortfolioObjects_update T' d' s)) Hero ! k)
          = position (objects (PortfolioObjects_update T d s) Hero ! k)
      \<and> ud_angle (objects (PortfolioObjects_update T d s) Hero ! k) = Some a)
   \<and> (j < length (objects s Skills) \<and> ud_orbit (objects s Skills ! j) = Some orb
      \<and> ud_angle (objects s Skills ! j) = Some a' \<and> ud_radius (objects s Skills ! j) = Some r'
      \<and> ud_speed (objects s Skills ! j) = Some v
    \<longrightarrow> position (objects (PortfolioObjects_update T d s) Skills ! j)
          = \<lparr>px = Some (cos (a' + T * v) * r'), py = py (position (objects s Skills ! j)),
             pz = Some (sin (a' + T * v) * r')\<rparr>
      \<and> position (objects (PortfolioObjects_update T d (PortfolioObjects_update T' d' s)) Skills ! j)
          = position (objects (PortfolioObjects_update T d s) Skills ! j)
      \<and> ud_angle (objects (PortfolioObjects_update T d s) Skills ! j) = Some a')"
  by (simp add: PortfolioObjects_update_def updateHero_orbit updateSkills_orbit)

lemma hero_init_1:
  "objects (init page w h) Hero ! Suc 0 = heroSphere 0" "length (objects (init page w h) Hero) = 10"
  by (simp_all add: init_def createHeroSection_def upt_rec)

lemma skills_init_0:
  "objects (init page w h) Skills ! 0 = skillOrb 0 0" "length (objects (init page w h) Skills) = 19"
  by (simp_all add: init_def createSkillsSection_def upt_rec numeral_eq_Suc)

theorem C7_orbit_witness:
  "position (objects (PortfolioObjects_update 0 0 (init [] 1920 1080)) Hero ! 1) = Pos 5 (sin 1 * 0.5) 0
   \<and> position (objects (PortfolioObjects_update 0 0 (PortfolioObjects_update 7 7 (init [] 1920 1080))) Hero ! 1)
       = position (objects (PortfolioObjects_update 0 0 (init [] 1920 1080)) Hero ! 1)
   \<and> position (objects (PortfolioObjects_update 0 0 (init [] 1920 1080)) Skills ! 0) = Pos 3 3 0"
proof -
  have h: "ud_angle (objects (init [] 1920 1080) Hero ! Suc 0) = Some 0"
          "ud_radius (objects (init [] 1920 1080) Hero ! Suc 0) = Some 5"
    by (simp_all add: hero_init_1 heroSphere_def Let_def newMesh_def newObject_def)
  have k: "ud_orbit (objects (init [] 1920 1080) Skills ! 0) = Some 0"
          "ud_angle (objects (init [] 1920 1080) Skills ! 0) = Some 0"
          "ud_radius (objects (init [] 1920 1080) Skills ! 0) = Some 3"
          "ud_speed (objects (init [] 1920 1080) Skills ! 0) = Some (1 / 2)"
          "py (position (objects (init [] 1920 1080) Skills ! 0)) = Some 3"
    by (simp_all add: skills_init_0 skillOrb_def Let_def newMesh_def newObject_def)
  show ?thesis
    using C7_orbit [of 1 "init [] 1920 1080" 0 5 0 0 7 7 0 0 0 3 "1/2"] h k
    by (simp add: hero_init_1 skills_init_0 Pos_def)
qed

section \<open>The scene after construction\<close>

text \<open>
  Every object that \<open>createAllSections\<close> makes has scale (1, 1, 1).
\<close>

lemma init_scales:
  "map scale (allObjects (objects (init page w h))) = replicate 49 (Vec3 1 1 1)
   \<and> tweens (init page w h) = []
   \<and> currentSection (init page w h) = 0 \<and> po_currentSection (init page w h) = 0"
  by (simp add: init_def allObjects_def sectionNames_def createHeroSection_def createAboutSection_def
     createProjectsSection_def createSkillsSection_def createContactSection_def heroSphere_def
     aboutCubes_def projectCard_def skillOrb_def contactRing_def newMesh_def newObject_def
     cubePositions_def cardPositions_def Let_def upt_rec numeral_eq_Suc comp_def)

lemma section_lengths:
  "length createHeroSection = 10" "length createAboutSection = 7" "length createProjectsSection = 7"
  "length createSkillsSection = 19" "length createContactSection = 6"
  by (simp_all add: createHeroSection_def createAboutSection_def createProjectsSection_def
      createSkillsSection_def createContactSection_def cubePositions_def cardPositions_def
      aboutCubes_def projectCard_def upt_rec)

lemma length_sectionRefs [simp]: "length (sectionRefs objs n) = length (objs n)"
  by (simp add: sectionRefs_def)

lemma allRefs_init_length: "length (allRefs (objects (init page w h))) = 49"
  by (simp add: init_def allRefs_def sectionNames_def section_lengths)

section \<open>Hover\<close>

lemma objectAt_modifyObject:
  "k < length (objects s n) \<Longrightarrow> objectAt (n, k) (modifyObject (n, k) f s) = f (objectAt (n, k) s)"
  by (simp add: objectAt_def modifyObject_def)

lemma hover_then_clear:
  assumes "hoveredObject s = None" and "k < length (objects s n)"
  shows "emissiveIntensity (objectAt (n, k) (clearHover (handleObjectHover (n, k) s)))
           = Some (orZero (emissiveIntensity (objectAt (n, k) s)))"
    and "hoveredObject (clearHover (handleObjectHover (n, k) s)) = None"
  using assms
  by (simp_all add: handleObjectHover_def clearHover_def Let_def objectAt_def modifyObject_def
      split: option.splits)

text \<open>
  Where the material has an emissive intensity, hovering and clearing restores it.
\<close>

lemma hover_roundtrip_defined:
  assumes "hoveredObject s = None" and "k < length (objects s n)"
    and "emissiveIntensity (objectAt (n, k) s) = Some v"
  shows "emissiveIntensity (objectAt (n, k) (clearHover (handleObjectHover (n, k) s))) = Some v"
  using hover_then_clear(1) [OF assms(1,2)] assms(3) by (simp add: orZero_def)

lemma hero_init_9:
  "objects (init page w h) Hero ! 9 = (newMesh None)\<lparr>position := Pos 0 0 (-5)\<rparr>"
  by (simp add: init_def createHeroSection_def upt_rec numeral_eq_Suc)

text \<open>
  Claim C5 says that hovering an object and then un-hovering it restores the
  material's emissive intensity to exactly its value before. The wireframe pyramid of
  the hero section (index 9) has a material without that property: one frame whose
  ray hits it and one frame whose ray hits nothing leave the property at 0.
\<close>

theorem C5_pyramid_hover:
  "emissiveIntensity (objectAt (Hero, 9) (init page w h)) = None
   \<and> InteractionManager_update now (\<lambda>objs. Some \<lparr>ix_object = 9, ix_point = p\<rparr>) (init page w h)
       = Returns (handleObjectHover (Hero, 9) (init page w h))
   \<and> InteractionManager_update now' (\<lambda>objs. None) (handleObjectHover (Hero, 9) (init page w h))
       = Returns (clearHover (handleObjectHover (Hero, 9) (init page w h)))
   \<and> emissiveIntensity (objectAt (Hero, 9) (clearHover (handleObjectHover (Hero, 9) (init page w h))))
       = Some 0"
proof -
  have len: "9 < length (objects (init page w h) Hero)" by (simp add: hero_init_1)
  have e: "emissiveIntensity (objectAt (Hero, 9) (init page w h)) = None"
    by (simp add: objectAt_def hero_init_9 newMesh_def newObject_def)
  have hov: "hoveredObject (init page w h) = None" by (simp add: init_def)
  have cur: "po_currentSection (init page w h) = 0" by (simp add: init_def)
  have a: "InteractionManager_update now (\<lambda>objs. Some \<lparr>ix_object = 9, ix_point = p\<rparr>) (init page w h)
       = Returns (handleObjectHover (Hero, 9) (init page w h))"
    using len by (simp add: InteractionManager_update_def checkIntersections_def cur
        sectionName_at_def sectionNames_def intersectObjects_def)
  have b: "InteractionManager_update now' (\<lambda>objs. None) (handleObjectHover (Hero, 9) (init page w h))
       = Returns (clearHover (handleObjectHover (Hero, 9) (init page w h)))"
    by (simp add: InteractionManager_update_def checkIntersections_def cur
        sectionName_at_def sectionNames_def intersectObjects_def)
  show ?thesis
    using hover_then_clear(1) [OF hov len] e a b by (simp add: orZero_def)
qed

section \<open>Navigation to an index outside 0..4\<close>

lemma sectionName_at_invalid: "i < 0 \<or> 4 < i \<Longrightarrow> sectionName_at i = None"
  by (auto simp add: sectionName_at_def sectionNames_def)

lemma sectionPosition_at_invalid: "i < 0 \<or> 4 < i \<Longrightarrow> sectionPosition_at i = None"
  by (auto simp add: sectionPosition_at_def sectionPositions_def)

lemma navigate_out_of_range:
  assumes "i < 0 \<or> 4 < i" and "i \<noteq> currentSection s"
  shows "navigateToSection i s
     = Throws TypeError
        (s\<lparr>currentSection := i,
           sections := map (\<lambda>index. int index = i) [0..<length (sections s)],
           po_currentSection := i, tweens := tweens s @ hideTweens s\<rparr>)"
  using assms
  by (simp add: navigateToSection_def Let_def moveToSection_def sectionPosition_at_invalid
        updateActiveSection_def sectionName_at_invalid hideTweens_def)

lemma setTarget_fields [simp]:
  "po_currentSection (setTarget g v s) = po_currentSection s"
  "currentSection (setTarget g v s) = currentSection s"
  "sections (setTarget g v s) = sections s"
  "mousePosX (setTarget g v s) = mousePosX s"
  "mousePosY (setTarget g v s) = mousePosY s"
  "hoveredObject (setTarget g v s) = hoveredObject s"
  "ripples (setTarget g v s) = ripples s"
  "scrollTimeout (setTarget g v s) = scrollTimeout s"
  "tweens (setTarget g v s) = tweens s"
  "time (setTarget g v s) = time s"
  "length (objects (setTarget g v s) n) = length (objects s n)"
  by (cases g; simp)+

lemma renderTween_fields [simp]:
  "po_currentSection (snd (renderTween t tw s)) = po_currentSection s"
  "currentSection (snd (renderTween t tw s)) = currentSection s"
  "sections (snd (renderTween t tw s)) = sections s"
  "mousePosX (snd (renderTween t tw s)) = mousePosX s"
  "mousePosY (snd (renderTween t tw s)) = mousePosY s"
  "hoveredObject (snd (renderTween t tw s)) = hoveredObject s"
  "ripples (snd (renderTween t tw s)) = ripples s"
  "scrollTimeout (snd (renderTween t tw s)) = scrollTimeout s"
  "length (objects (snd (renderTween t tw s)) n) = length (objects s n)"
  by (simp_all add: renderTween_def Let_def)

lemma renderAll_preserves:
  assumes "\<And>tw s. P (snd (renderTween t tw s)) = P s"
  shows "P (snd (renderAll t tws s)) = P s"
  by (induction tws arbitrary: s) (simp_all add: case_prod_beta assms)

lemma renderAll_fields [simp]:
  "po_currentSection (snd (renderAll t tws s)) = po_currentSection s"
  "currentSection (snd (renderAll t tws s)) = currentSection s"
  "sections (snd (renderAll t tws s)) = sections s"
  "mousePosX (snd (renderAll t tws s)) = mousePosX s"
  "mousePosY (snd (renderAll t tws s)) = mousePosY s"
  "hoveredObject (snd (renderAll t tws s)) = hoveredObject s"
  "ripples (snd (renderAll t tws s)) = ripples s"
  "scrollTimeout (snd (renderAll t tws s)) = scrollTimeout s"
  "length (objects (snd (renderAll t tws s)) n) = length (objects s n)"
  by (rule renderAll_preserves, simp)+

lemma gsapTick_fields [simp]:
  "po_currentSection (gsapTick t s) = po_currentSection s"
  "currentSection (gsapTick t s) = currentSection s"
  "sections (gsapTick t s) = sections s"
  "mousePosX (gsapTick t s) = mousePosX s"
  "mousePosY (gsapTick t s) = mousePosY s"
  "hoveredObject (gsapTick t s) = hoveredObject s"
  "ripples (gsapTick t s) = ripples s"
  "scrollTimeout (gsapTick t s) = scrollTimeout s"
  "length (objects (gsapTick t s) n) = length (objects s n)"
  "time (gsapTick t s) = t"
  "tweens (gsapTick t s) = fst (renderAll t (tweens s) s)"
  by (simp_all add: gsapTick_def case_prod_beta)

lemma frame_throws:
  assumes "po_currentSection s < 0 \<or> 4 < po_currentSection s"
  shows "\<exists>s'. frame fi s = Throws TypeError s'"
  using assms
  by (simp add: frame_def animate_def InteractionManager_update_def checkIntersections_def
      CameraController_update_def PortfolioObjects_update_def Let_def sectionName_at_invalid)

text \<open>
  Claim C1 says that a navigation request to an index outside 0..4 is a no-op without
  a fatal error. From the initial state \<open>navigateToSection 5\<close> throws a TypeError after
  it has set both current-section fields to 5, cleared the active flag of every section
  of the page and started the 49 hide tweens; every frame after it throws in the
  interaction manager's update.
\<close>

theorem C1_navigate_5:
  "navigateToSection 5 (init [True, False, False, False, False] w h)
     = Throws TypeError
        ((init [True, False, False, False, False] w h)
           \<lparr>currentSection := 5, sections := [False, False, False, False, False],
            po_currentSection := 5,
            tweens := hideTweens (init [True, False, False, False, False] w h)\<rparr>)
   \<and> length (hideTweens (init [True, False, False, False, False] w h)) = 49
   \<and> (\<exists>s'. frame fi (stateOf (navigateToSection 5 (init [True, False, False, False, False] w h)))
          = Throws TypeError s')"
proof -
  let ?s = "init [True, False, False, False, False] w h"
  have n: "navigateToSection 5 ?s
     = Throws TypeError
        (?s\<lparr>currentSection := 5,
           sections := map (\<lambda>index. int index = 5) [0..<length (sections ?s)],
           po_currentSection := 5, tweens := tweens ?s @ hideTweens ?s\<rparr>)"
    by (rule navigate_out_of_range) (simp_all add: init_def)
  have r: "map (\<lambda>index. int index = 5) [0..<length (sections ?s)]
             = [False, False, False, False, False]"
          "tweens ?s = []"
    by (simp_all add: init_def upt_rec)
  have l: "length (hideTweens ?s) = 49"
    by (simp add: hideTweens_def allRefs_init_length)
  have f: "\<exists>s'. frame fi (stateOf (navigateToSection 5 ?s)) = Throws TypeError s'"
    by (rule frame_throws) (simp add: n)
  show ?thesis using n r l f by simp
qed

section \<open>Ripples\<close>

lemma update_fields [simp]:
  "ripples (PortfolioObjects_update e d s) = ripples s"
  "tweens (PortfolioObjects_update e d s) = tweens s"
  "po_currentSection (PortfolioObjects_update e d s) = po_currentSection s"
  "currentSection (PortfolioObjects_update e d s) = currentSection s"
  "cam_position (PortfolioObjects_update e d s) = cam_position s"
  "targetPosition (PortfolioObjects_update e d s) = targetPosition s"
  "cam_lookAt (PortfolioObjects_update e d s) = cam_lookAt s"
  "mousePosX (PortfolioObjects_update e d s) = mousePosX s"
  "mousePosY (PortfolioObjects_update e d s) = mousePosY s"
  "time (PortfolioObjects_update e d s) = time s"
  "sections (PortfolioObjects_update e d s) = sections s"
  "hoveredObject (PortfolioObjects_update e d s) = hoveredObject s"
  by (simp_all add: PortfolioObjects_update_def)

lemma camera_update_fields [simp]:
  "ripples (CameraController_update d s) = ripples s"
  "tweens (CameraController_update d s) = tweens s"
  "po_currentSection (CameraController_update d s) = po_currentSection s"
  "currentSection (CameraController_update d s) = currentSection s"
  "objects (CameraController_update d s) = objects s"
  "targetPosition (CameraController_update d s) = targetPosition s"
  "cam_lookAt (CameraController_update d s) = Some (targetPosition s)"
  "mousePosX (CameraController_update d s) = mousePosX s"
  "mousePosY (CameraController_update d s) = mousePosY s"
  "time (CameraController_update d s) = time s"
  "sections (CameraController_update d s) = sections s"
  "hoveredObject (CameraController_update d s) = hoveredObject s"
  by (simp_all add: CameraController_update_def Let_def)

lemma checkIntersections_hover_fields [simp]:
  "ripples (stateOf (checkIntersections False now ray s)) = ripples s"
  "tweens (stateOf (checkIntersections c now ray s)) = tweens s"
  "po_currentSection (stateOf (checkIntersections c now ray s)) = po_currentSection s"
  "currentSection (stateOf (checkIntersections c now ray s)) = currentSection s"
  by (simp_all add: checkIntersections_def split: option.splits)

lemma frame_ripples:
  "ripples (stateOf (frame fi s)) = map (animateRipple (fi_wall fi)) (ripples s)"
proof -
  have "ripples (stateOf (animate fi (gsapTick (fi_time fi) s))) = ripples s"
    by (simp add: animate_def InteractionManager_update_def)
  then show ?thesis
    by (cases "animate fi (gsapTick (fi_time fi) s)") (simp_all add: frame_def rippleFrame_def)
qed

lemma run_ripples:
  "run fs s = Returns s' \<Longrightarrow>
   ripples s' = map (\<lambda>r. foldl (\<lambda>r fi. animateRipple (fi_wall fi) r) r fs) (ripples s)"
proof (induction fs arbitrary: s)
  case Nil
  then show ?case by simp
next
  case (Cons fi fs)
  from Cons.prems obtain s1 where s1: "frame fi s = Returns s1" "run fs s1 = Returns s'"
    by (auto split: outcome.splits)
  have "ripples s1 = map (animateRipple (fi_wall fi)) (ripples s)"
    using frame_ripples [of fi s] s1(1) by simp
  with Cons.IH [OF s1(2)] show ?case by (simp add: comp_def)
qed

lemma animateRipple_gone: "gone r \<Longrightarrow> animateRipple w r = r"
  by (simp add: gone_def animateRipple_def)

lemma foldl_animateRipple_gone: "gone r \<Longrightarrow> foldl (\<lambda>r fi. animateRipple (fi_wall fi) r) r fs = r"
  by (induction fs) (simp_all add: animateRipple_gone)

lemma animateRipple_step:
  assumes "rp_animating r"
  shows "rp_startTime r + 1000 \<le> w \<Longrightarrow> gone (animateRipple w r)"
    and "w < rp_startTime r + 1000 \<Longrightarrow>
           rp_animating (animateRipple w r) \<and> rp_startTime (animateRipple w r) = rp_startTime r
           \<and> rp_inScene (animateRipple w r) = rp_inScene r
           \<and> rp_geometryDisposed (animateRipple w r) = rp_geometryDisposed r
           \<and> rp_materialDisposed (animateRipple w r) = rp_materialDisposed r
           \<and> rp_position (animateRipple w r) = rp_position r"
  using assms by (simp_all add: animateRipple_def gone_def Let_def)

lemma foldl_animateRipple_expires:
  assumes "gone r \<or> (rp_animating r \<and> rp_startTime r \<le> t0)"
    and "\<exists>fi \<in> set fs. t0 + 1000 \<le> fi_wall fi"
  shows "gone (foldl (\<lambda>r fi. animateRipple (fi_wall fi) r) r fs)"
  using assms
proof (induction fs arbitrary: r)
  case Nil
  then show ?case by simp
next
  case (Cons fi fs)
  show ?case
  proof (cases "gone r")
    case True
    then show ?thesis by (simp add: foldl_animateRipple_gone animateRipple_gone)
  next
    case False
    with Cons.prems(1) have r: "rp_animating r" "rp_startTime r \<le> t0" by auto
    show ?thesis
    proof (cases "rp_startTime r + 1000 \<le> fi_wall fi")
      case True
      then show ?thesis
        using animateRipple_step(1) [OF r(1)] by (simp add: foldl_animateRipple_gone)
    next
      case False
      then have w: "fi_wall fi < rp_startTime r + 1000" by simp
      with r(2) have "\<not> t0 + 1000 \<le> fi_wall fi" by simp
      with Cons.prems(2) have ex: "\<exists>fi \<in> set fs. t0 + 1000 \<le> fi_wall fi" by auto
      have "rp_animating (animateRipple (fi_wall fi) r) \<and> rp_startTime (animateRipple (fi_wall fi) r) \<le> t0"
        using animateRipple_step(2) [OF r(1) w] r(2) by simp
      then show ?thesis using Cons.IH [OF _ ex, of "animateRipple (fi_wall fi) r"] by simp
    qed
  qed
qed

lemma newRipple_first_call: "animateRipple now (newRipple p now) = newRipple p now"
  by (simp add: animateRipple_def newRipple_def Let_def)

lemma handleObjectClick_ripples:
  "ripples (handleObjectClick now r s) = ripples s @ [newRipple (position (objectAt r s)) now]"
  by (simp add: handleObjectClick_def createRipple_def Let_def newRipple_first_call)

lemma onClick_hit:
  assumes "sectionName_at (po_currentSection s) = Some n" "ray (objects s n) = Some hit"
    "ix_object hit < length (objects s n)"
  shows "onClick now ray s = Returns (handleObjectClick now (n, ix_object hit) s)"
  using assms by (simp add: onClick_def checkIntersections_def intersectObjects_def)

lemma rippleResources_gone:
  "list_all gone (ripples s) \<Longrightarrow> rippleResources s = 0"
  by (simp add: rippleResources_def list_all_iff gone_def filter_empty_conv)

lemma getTarget_setTarget_same: "validTarget g s \<Longrightarrow> getTarget g (setTarget g v s) = v"
  by (cases g) simp_all

section \<open>Ticks and destinations\<close>

lemma nth_list_update_gen: "xs[i := x] ! j = (if i = j \<and> i < length xs then x else xs ! j)"
  by (cases "i < length xs") (simp_all add: nth_list_update list_update_beyond)

lemma getTarget_setTarget_other: "g \<noteq> g' \<Longrightarrow> getTarget g (setTarget g' v s) = getTarget g s"
  by (cases g; cases g') (auto simp: nth_list_update_gen)

lemma validTarget_setTarget [simp]: "validTarget g (setTarget g' v s) = validTarget g s"
  by (cases g) simp_all

lemma renderTween_completes:
  "completes t tw \<Longrightarrow> renderTween t tw s = (None, setTarget (tw_target tw) (tw_to tw) s)"
  by (simp add: renderTween_def completes_def tw_end_def Let_def)

lemma renderTween_pending:
  "\<not> completes t tw \<Longrightarrow> \<exists>f. fst (renderTween t tw s) = Some (tw\<lparr>tw_from := f\<rparr>)"
proof (cases "t < tw_start tw")
  case True
  then have "fst (renderTween t tw s) = Some (tw\<lparr>tw_from := tw_from tw\<rparr>)"
    by (simp add: renderTween_def)
  then show ?thesis ..
next
  case False
  assume "\<not> completes t tw"
  with False have "fst (renderTween t tw s)
      = Some (tw\<lparr>tw_from := Some (case tw_from tw of None \<Rightarrow> getTarget (tw_target tw) s | Some f \<Rightarrow> f)\<rparr>)"
    by (simp add: renderTween_def completes_def tw_end_def Let_def)
  then show ?thesis ..
qed

lemma validTarget_renderTween [simp]:
  "validTarget g (snd (renderTween t tw s)) = validTarget g s"
  by (simp add: renderTween_def Let_def)

lemma validTarget_renderAll [simp]:
  "validTarget g (snd (renderAll t tws s)) = validTarget g s"
  by (rule renderAll_preserves) simp

lemma getTarget_renderTween_other:
  "tw_target tw \<noteq> g \<Longrightarrow> getTarget g (snd (renderTween t tw s)) = getTarget g s"
  by (simp add: renderTween_def Let_def getTarget_setTarget_other)

lemma dest_kept:
  assumes "\<forall>tw \<in> set tws. tw_target tw = g \<longrightarrow> \<not> completes t tw"
  shows "dest (fst (renderAll t tws s)) g v = dest tws g v"
  using assms
proof (induction tws arbitrary: s v)
  case Nil
  then show ?case by simp
next
  case (Cons tw tws)
  let ?s1 = "snd (renderTween t tw s)"
  have ih: "dest (fst (renderAll t tws ?s1)) g v' = dest tws g v'" for v'
    using Cons.IH [of ?s1 v'] Cons.prems by simp
  show ?case
  proof (cases "completes t tw")
    case True
    with Cons.prems have "tw_target tw \<noteq> g" by auto
    moreover have "fst (renderTween t tw s) = None" by (simp add: renderTween_completes [OF True])
    ultimately show ?thesis using ih by (simp add: case_prod_beta)
  next
    case False
    from renderTween_pending [OF False, of s] obtain f
      where "fst (renderTween t tw s) = Some (tw\<lparr>tw_from := f\<rparr>)" ..
    then show ?thesis by (simp add: case_prod_beta ih)
  qed
qed

lemma orderly_later:
  assumes "orderly (tw # tws)" "\<not> completes t tw" "tw' \<in> set tws" "tw_target tw' = tw_target tw"
    "0 \<le> tw_duration tw'"
  shows "\<not> completes t tw'"
proof -
  from assms(1,3,4) have "tw_end tw \<le> tw_end tw'" by (auto simp: list_all_iff)
  moreover from assms(1,2) have "t < tw_end tw" by (auto simp: completes_def tw_end_def)
  ultimately show ?thesis by (simp add: completes_def)
qed

lemma orderly_durations: "orderly tws \<Longrightarrow> tw \<in> set tws \<Longrightarrow> 0 \<le> tw_duration tw"
  by (induction tws) auto

lemma dest_renderAll:
  assumes "orderly tws" "validTarget g s"
  shows "dest (fst (renderAll t tws s)) g (getTarget g (snd (renderAll t tws s)))
           = dest tws g (getTarget g s)"
  using assms
proof (induction tws arbitrary: s)
  case Nil
  then show ?case by simp
next
  case (Cons tw tws)
  let ?s1 = "snd (renderTween t tw s)"
  let ?rs = "fst (renderAll t tws ?s1)"
  let ?s2 = "snd (renderAll t tws ?s1)"
  from Cons.prems(1) have o: "orderly tws" by simp
  have v1: "validTarget g ?s1" using Cons.prems(2) by simp
  have ih: "dest ?rs g (getTarget g ?s2) = dest tws g (getTarget g ?s1)"
    by (rule Cons.IH [OF o v1])
  have unfold: "renderAll t (tw # tws) s
      = ((case fst (renderTween t tw s) of None \<Rightarrow> ?rs | Some tw' \<Rightarrow> tw' # ?rs), ?s2)"
    by (simp add: case_prod_beta)
  show ?case
  proof (cases "completes t tw")
    case True
    have r: "fst (renderTween t tw s) = None" by (simp add: renderTween_completes [OF True])
    show ?thesis
    proof (cases "tw_target tw = g")
      case eq: True
      have "getTarget g ?s1 = tw_to tw"
        using eq Cons.prems(2) by (simp add: renderTween_completes [OF True] getTarget_setTarget_same)
      with ih eq show ?thesis by (simp add: unfold r del: renderAll.simps)
    next
      case ne: False
      have "getTarget g ?s1 = getTarget g s" by (rule getTarget_renderTween_other [OF ne])
      with ih ne show ?thesis by (simp add: unfold r del: renderAll.simps)
    qed
  next
    case False
    from renderTween_pending [OF False, of s] obtain f
      where r: "fst (renderTween t tw s) = Some (tw\<lparr>tw_from := f\<rparr>)" ..
    show ?thesis
    proof (cases "tw_target tw = g")
      case eq: True
      have none: "\<forall>tw' \<in> set tws. tw_target tw' = g \<longrightarrow> \<not> completes t tw'"
        using orderly_later [OF Cons.prems(1) False] eq orderly_durations [OF o] by auto
      have "dest ?rs g v = dest tws g v" for v by (rule dest_kept [OF none])
      with eq show ?thesis by (simp add: unfold r del: renderAll.simps)
    next
      case ne: False
      have "getTarget g ?s1 = getTarget g s" by (rule getTarget_renderTween_other [OF ne])
      with ih ne show ?thesis by (simp add: unfold r del: renderAll.simps)
    qed
  qed
qed

section \<open>Frames\<close>

lemma stateOf_frame:
  "stateOf (frame fi s)
     = rippleFrame (fi_wall fi)
         (stateOf (checkIntersections False (fi_wall fi) (fi_ray fi)
            (CameraController_update (fi_delta fi)
               (PortfolioObjects_update (fi_elapsed fi) (fi_delta fi)
                  (gsapTick (fi_time fi) s)))))"
  by (simp add: frame_def animate_def InteractionManager_update_def split: outcome.splits)

lemma rippleFrame_fields [simp]:
  "tweens (rippleFrame w s) = tweens s"
  "po_currentSection (rippleFrame w s) = po_currentSection s"
  "currentSection (rippleFrame w s) = currentSection s"
  "objects (rippleFrame w s) = objects s"
  "cam_position (rippleFrame w s) = cam_position s"
  "targetPosition (rippleFrame w s) = targetPosition s"
  "cam_lookAt (rippleFrame w s) = cam_lookAt s"
  "mousePosX (rippleFrame w s) = mousePosX s"
  "mousePosY (rippleFrame w s) = mousePosY s"
  "time (rippleFrame w s) = time s"
  "sections (rippleFrame w s) = sections s"
  by (simp_all add: rippleFrame_def)

lemma checkIntersections_hover_more [simp]:
  "cam_position (stateOf (checkIntersections False now ray s)) = cam_position s"
  "targetPosition (stateOf (checkIntersections False now ray s)) = targetPosition s"
  "cam_lookAt (stateOf (checkIntersections False now ray s)) = cam_lookAt s"
  "mousePosX (stateOf (checkIntersections False now ray s)) = mousePosX s"
  "mousePosY (stateOf (checkIntersections False now ray s)) = mousePosY s"
  "time (stateOf (checkIntersections False now ray s)) = time s"
  "sections (stateOf (checkIntersections False now ray s)) = sections s"
  by (simp_all add: checkIntersections_def split: option.splits)

lemma frame_fields [simp]:
  "po_currentSection (stateOf (frame fi s)) = po_currentSection s"
  "currentSection (stateOf (frame fi s)) = currentSection s"
  "sections (stateOf (frame fi s)) = sections s"
  "mousePosX (stateOf (frame fi s)) = mousePosX s"
  "mousePosY (stateOf (frame fi s)) = mousePosY s"
  "time (stateOf (frame fi s)) = fi_time fi"
  "tweens (stateOf (frame fi s)) = fst (renderAll (fi_time fi) (tweens s) s)"
  by (simp_all add: stateOf_frame)

lemma frame_returns:
  assumes "0 \<le> po_currentSection s" "po_currentSection s \<le> 4"
  shows "\<exists>s'. frame fi s = Returns s'"
proof -
  let ?s' = "CameraController_update (fi_delta fi)
          (PortfolioObjects_update (fi_elapsed fi) (fi_delta fi) (gsapTick (fi_time fi) s))"
  have "0 \<le> po_currentSection ?s'" "po_currentSection ?s' \<le> 4" using assms by simp_all
  from sectionName_at_valid [OF this] obtain n where "sectionName_at (po_currentSection ?s') = Some n" ..
  then show ?thesis
    by (simp add: frame_def animate_def InteractionManager_update_def checkIntersections_def
        split: option.splits)
qed

lemma run_returns:
  assumes "0 \<le> po_currentSection s" "po_currentSection s \<le> 4"
  shows "\<exists>s'. run fs s = Returns s'"
  using assms
proof (induction fs arbitrary: s)
  case Nil
  then show ?case by simp
next
  case (Cons fi fs)
  from frame_returns [OF Cons.prems] obtain s1 where f: "frame fi s = Returns s1" ..
  have "po_currentSection s1 = po_currentSection s"
    using frame_fields(1) [of fi s] f by simp
  with Cons.IH [of s1] Cons.prems f show ?case by simp
qed

lemma renderAll_rest_from:
  "x \<in> set (fst (renderAll t tws s)) \<Longrightarrow> \<exists>y \<in> set tws. \<exists>f. x = y\<lparr>tw_from := f\<rparr>"
proof (induction tws arbitrary: s)
  case Nil
  then show ?case by simp
next
  case (Cons tw tws)
  let ?s1 = "snd (renderTween t tw s)"
  show ?case
  proof (cases "completes t tw")
    case True
    then have "fst (renderAll t (tw # tws) s) = fst (renderAll t tws ?s1)"
      by (simp add: renderTween_completes case_prod_beta)
    with Cons.prems Cons.IH [of ?s1] show ?thesis by auto
  next
    case False
    from renderTween_pending [OF False, of s] obtain f
      where f: "fst (renderTween t tw s) = Some (tw\<lparr>tw_from := f\<rparr>)" ..
    then have "fst (renderAll t (tw # tws) s) = tw\<lparr>tw_from := f\<rparr> # fst (renderAll t tws ?s1)"
      by (simp add: case_prod_beta)
    with Cons.prems Cons.IH [of ?s1] show ?thesis by auto
  qed
qed

lemma orderly_renderAll: "orderly tws \<Longrightarrow> orderly (fst (renderAll t tws s))"
proof (induction tws arbitrary: s)
  case Nil
  then show ?case by simp
next
  case (Cons tw tws)
  let ?s1 = "snd (renderTween t tw s)"
  let ?rs = "fst (renderAll t tws ?s1)"
  from Cons.prems have o: "orderly ?rs" using Cons.IH [of ?s1] by simp
  show ?case
  proof (cases "completes t tw")
    case True
    then have "fst (renderAll t (tw # tws) s) = ?rs"
      by (simp add: renderTween_completes case_prod_beta)
    with o show ?thesis by simp
  next
    case False
    from renderTween_pending [OF False, of s] obtain f
      where f: "fst (renderTween t tw s) = Some (tw\<lparr>tw_from := f\<rparr>)" ..
    then have eq: "fst (renderAll t (tw # tws) s) = tw\<lparr>tw_from := f\<rparr> # ?rs"
      by (simp add: case_prod_beta)
    have "tw_target x = tw_target tw \<longrightarrow> tw_end tw \<le> tw_end x" if "x \<in> set ?rs" for x
    proof -
      from renderAll_rest_from [OF that] obtain y f' where y: "y \<in> set tws" "x = y\<lparr>tw_from := f'\<rparr>"
        by auto
      with Cons.prems show ?thesis by (auto simp: list_all_iff tw_end_def)
    qed
    with o Cons.prems show ?thesis
      by (simp only: eq) (simp add: list_all_iff tw_end_def)
  qed
qed

lemma renderAll_all_complete:
  "\<forall>tw \<in> set tws. completes t tw \<Longrightarrow> fst (renderAll t tws s) = []"
  by (induction tws arbitrary: s) (simp_all add: renderTween_completes case_prod_beta)

lemma updateSection_length [simp]: "length (updateSection e n xs) = length xs"
  by (cases n) simp_all

lemma updateSection_scale:
  assumes "k < length xs" "\<not> (n = Contact \<and> ud_delay (xs ! k) \<noteq> None)"
  shows "scale (updateSection e n xs ! k) = scale (xs ! k)"
  using assms
  by (cases n)
     (auto simp: updateHero_def updateAbout_def updateProjects_def updateSkills_def
        updateContact_def Let_def split: option.splits)

lemma updateSection_delay:
  assumes "k < length xs"
  shows "ud_delay (updateSection e n xs ! k) = ud_delay (xs ! k)"
  using assms
  by (cases n)
     (auto simp: updateHero_def updateAbout_def updateProjects_def updateSkills_def
        updateContact_def Let_def split: option.splits)

lemma modifyObject_length [simp]: "length (objects (modifyObject r f s) n) = length (objects s n)"
  by (cases r) (simp add: modifyObject_def)

lemma modifyObject_keeps:
  assumes "\<And>obj. P (f obj) = P obj"
  shows "P (objects (modifyObject r f s) n ! k) = P (objects s n ! k)"
  by (cases r) (auto simp: modifyObject_def nth_list_update_gen assms)

lemma clearHover_keeps:
  "scale (objects (clearHover s) n ! k) = scale (objects s n ! k)"
  "ud_delay (objects (clearHover s) n ! k) = ud_delay (objects s n ! k)"
  "length (objects (clearHover s) n) = length (objects s n)"
  by (simp_all add: clearHover_def Let_def modifyObject_keeps split: option.splits)

lemma handleObjectHover_keeps:
  "scale (objects (handleObjectHover r s) n ! k) = scale (objects s n ! k)"
  "ud_delay (objects (handleObjectHover r s) n ! k) = ud_delay (objects s n ! k)"
  "length (objects (handleObjectHover r s) n) = length (objects s n)"
  by (simp_all add: handleObjectHover_def Let_def modifyObject_keeps clearHover_keeps)

lemma checkIntersections_hover_keeps:
  "scale (objects (stateOf (checkIntersections False now ray s)) n ! k) = scale (objects s n ! k)"
  "ud_delay (objects (stateOf (checkIntersections False now ray s)) n ! k) = ud_delay (objects s n ! k)"
  "length (objects (stateOf (checkIntersections False now ray s)) n) = length (objects s n)"
  by (simp_all add: checkIntersections_def handleObjectHover_keeps clearHover_keeps
      split: option.splits)

lemma setTarget_delay: "ud_delay (objects (setTarget g v s) n ! k) = ud_delay (objects s n ! k)"
  by (cases g) (auto simp: nth_list_update_gen)

lemma renderAll_delay:
  "ud_delay (objects (snd (renderAll t tws s)) n ! k) = ud_delay (objects s n ! k)"
  by (rule renderAll_preserves) (simp add: renderTween_def Let_def setTarget_delay)

lemma gsapTick_objects: "objects (gsapTick t s) = objects (snd (renderAll t (tweens s) s))"
  "cam_position (gsapTick t s) = cam_position (snd (renderAll t (tweens s) s))"
  "targetPosition (gsapTick t s) = targetPosition (snd (renderAll t (tweens s) s))"
  by (simp_all add: gsapTick_def case_prod_beta)

lemma frame_length [simp]: "length (objects (stateOf (frame fi s)) n) = length (objects s n)"
  by (simp add: stateOf_frame checkIntersections_hover_keeps PortfolioObjects_update_def)

lemma frame_delay:
  "k < length (objects s n) \<Longrightarrow>
   ud_delay (objects (stateOf (frame fi s)) n ! k) = ud_delay (objects s n ! k)"
  by (simp add: stateOf_frame checkIntersections_hover_keeps PortfolioObjects_update_def
      updateSection_delay gsapTick_objects renderAll_delay)

lemma frame_valid [simp]: "validTarget g (stateOf (frame fi s)) = validTarget g s"
  by (cases g) simp_all

lemma frame_stable: "validTarget g s \<Longrightarrow> stable g (stateOf (frame fi s)) = stable g s"
  by (cases g) (simp_all add: frame_delay)

lemma frame_getTarget:
  assumes "validTarget g s" "stable g s"
  shows "getTarget g (stateOf (frame fi s)) = getTarget g (snd (renderAll (fi_time fi) (tweens s) s))"
proof (cases g)
  case (ScaleOf n k)
  with assms have k: "k < length (objects s n)"
    and p: "\<not> (n = Contact \<and> ud_delay (objects s n ! k) \<noteq> None)" by simp_all
  let ?s1 = "snd (renderAll (fi_time fi) (tweens s) s)"
  have "scale (updateSection (fi_elapsed fi) n (objects ?s1 n) ! k) = scale (objects ?s1 n ! k)"
    using k p by (intro updateSection_scale) (simp_all add: renderAll_delay)
  then show ?thesis
    by (simp add: ScaleOf stateOf_frame checkIntersections_hover_keeps PortfolioObjects_update_def
        gsapTick_objects)
next
  case CameraPosition
  with assms show ?thesis
    by (simp add: stateOf_frame CameraController_update_def Let_def gsapTick_objects)
next
  case TargetPosition
  then show ?thesis by (simp add: stateOf_frame gsapTick_objects)
qed

lemma frame_destination:
  assumes "orderly (tweens s)" "validTarget g s" "stable g s"
  shows "destination (stateOf (frame fi s)) g = destination s g"
  using dest_renderAll [OF assms(1,2), of "fi_time fi"] frame_getTarget [OF assms(2,3), of fi]
  by (simp add: destination_def)

lemma run_destination:
  assumes "run fs s = Returns s'" "orderly (tweens s)" "validTarget g s" "stable g s"
  shows "destination s' g = destination s g \<and> orderly (tweens s') \<and> validTarget g s' \<and> stable g s'"
  using assms
proof (induction fs arbitrary: s)
  case Nil
  then show ?case by simp
next
  case (Cons fi fs)
  from Cons.prems(1) obtain s1 where s1: "frame fi s = Returns s1" "run fs s1 = Returns s'"
    by (auto split: outcome.splits)
  then have eq: "s1 = stateOf (frame fi s)" by simp
  have o: "orderly (tweens s1)" by (simp add: eq orderly_renderAll Cons.prems(2))
  have v: "validTarget g s1" by (simp add: eq Cons.prems(3))
  have st: "stable g s1" by (simp add: eq frame_stable Cons.prems(3,4))
  have d: "destination s1 g = destination s g"
    unfolding eq by (rule frame_destination [OF Cons.prems(2-4)])
  from Cons.IH [OF s1(2) o v st] d show ?case by simp
qed

lemma destination_settled: "tweens s = [] \<Longrightarrow> destination s g = getTarget g s"
  by (simp add: destination_def)

section \<open>The tweens of a navigation\<close>

lemma dest_append: "dest (xs @ ys) g v = dest ys g (dest xs g v)"
  by (induction xs arbitrary: v) simp_all

lemma dest_none: "\<forall>tw \<in> set tws. tw_target tw \<noteq> g \<Longrightarrow> dest tws g v = v"
  by (induction tws arbitrary: v) simp_all

lemma dest_const:
  assumes "\<forall>tw \<in> set tws. tw_target tw = g \<longrightarrow> tw_to tw = c" "\<exists>tw \<in> set tws. tw_target tw = g"
  shows "dest tws g v = c"
  using assms
proof (induction tws arbitrary: v)
  case Nil
  then show ?case by simp
next
  case (Cons tw tws)
  show ?case
  proof (cases "\<exists>tw \<in> set tws. tw_target tw = g")
    case True
    with Cons show ?thesis by simp
  next
    case False
    with Cons.prems have "tw_target tw = g" "tw_to tw = c" by auto
    with False show ?thesis by (simp add: dest_none)
  qed
qed

lemma orderly_append:
  "orderly (xs @ ys) =
     (orderly xs \<and> orderly ys
      \<and> (\<forall>x \<in> set xs. \<forall>y \<in> set ys. tw_target y = tw_target x \<longrightarrow> tw_end x \<le> tw_end y))"
  by (induction xs) (auto simp: list_all_iff)

lemma orderly_same_end:
  "\<forall>tw \<in> set tws. 0 \<le> tw_duration tw \<and> tw_end tw = c \<Longrightarrow> orderly tws"
  by (induction tws) (auto simp: list_all_iff)

lemma orderly_distinct:
  "distinct (map tw_target tws) \<Longrightarrow> \<forall>tw \<in> set tws. 0 \<le> tw_duration tw \<Longrightarrow> orderly tws"
proof (induction tws)
  case Nil
  then show ?case by simp
next
  case (Cons a tws)
  then have "orderly tws" by simp
  moreover have "\<forall>tw' \<in> set tws. tw_target tw' \<noteq> tw_target a"
    using Cons.prems(1) by (auto simp: image_iff)
  ultimately show ?case using Cons.prems(2) by (simp add: list_all_iff)
qed

lemma sectionNames_all: "n \<in> set sectionNames"
  by (cases n) (simp_all add: sectionNames_def)

lemma sectionRefs_member: "((n, k) \<in> set (sectionRefs objs x)) = (x = n \<and> k < length (objs n))"
  by (auto simp: sectionRefs_def)

lemma allRefs_member: "((n, k) \<in> set (allRefs objs)) = (k < length (objs n))"
  using sectionNames_all [of n] by (auto simp: allRefs_def sectionRefs_member)

lemma hideTweens_member:
  "(tw \<in> set (hideTweens s)) =
     (\<exists>n k. k < length (objects s n)
        \<and> tw = newTween (ScaleOf n k) (Vec3 0 0 0) 0.5 0 Power2In (time s))"
proof -
  have "(tw \<in> set (hideTweens s)) =
      (\<exists>n k. (n, k) \<in> set (allRefs (objects s))
          \<and> tw = newTween (ScaleOf n k) (Vec3 0 0 0) 0.5 0 Power2In (time s))"
    unfolding hideTweens_def by force
  then show ?thesis by (simp add: allRefs_member)
qed

lemma showTweens_member:
  "(tw \<in> set (showTweens m s)) =
     (\<exists>k. k < length (objects s m)
        \<and> tw = newTween (ScaleOf m k) (Vec3 1 1 1) 0.5 (real k * 0.05) (BackOut 1.7) (time s))"
  by (auto simp: showTweens_def image_iff)

lemma newTween_simps [simp]:
  "tw_target (newTween g v d dl e now) = g"
  "tw_to (newTween g v d dl e now) = v"
  "tw_start (newTween g v d dl e now) = now + dl"
  "tw_duration (newTween g v d dl e now) = d"
  "tw_end (newTween g v d dl e now) = now + dl + d"
  by (simp_all add: newTween_def tw_end_def)

lemma sectionPosition_at_valid:
  "0 \<le> j \<Longrightarrow> j \<le> 4 \<Longrightarrow> sectionPosition_at j = Some (sectionPositions ! nat j)"
  by (simp add: sectionPosition_at_def sectionPositions_def)

lemma navigate_state:
  assumes "sectionName_at j = Some m" "j \<noteq> currentSection s"
  shows "navigateToSection j s =
     Returns (s\<lparr>currentSection := j,
                sections := map (\<lambda>index. int index = j) [0..<length (sections s)],
                po_currentSection := j,
                tweens := tweens s @ cameraTweens j s @ hideTweens s @ showTweens m s\<rparr>)"
  using assms
  by (simp add: navigateToSection_def updateActiveSection_def Let_def moveToSection_def
      gsap_to_def cameraTweens_def hideTweens_def showTweens_def split: option.splits prod.splits)

lemma navigate_fields:
  assumes "sectionName_at j = Some m" "j \<noteq> currentSection s"
  shows "tweens (stateOf (navigateToSection j s))
           = tweens s @ cameraTweens j s @ hideTweens s @ showTweens m s"
    and "objects (stateOf (navigateToSection j s)) = objects s"
    and "cam_position (stateOf (navigateToSection j s)) = cam_position s"
    and "targetPosition (stateOf (navigateToSection j s)) = targetPosition s"
    and "mousePosX (stateOf (navigateToSection j s)) = mousePosX s"
    and "mousePosY (stateOf (navigateToSection j s)) = mousePosY s"
    and "currentSection (stateOf (navigateToSection j s)) = j"
    and "po_currentSection (stateOf (navigateToSection j s)) = j"
    and "time (stateOf (navigateToSection j s)) = time s"
  by (simp_all add: navigate_state [OF assms])

lemma cameraTweens_valid:
  assumes "0 \<le> j" "j \<le> 4"
  shows "cameraTweens j s =
          [newTween CameraPosition (fst (sectionPositions ! nat j)) 1.5 0 Power2InOut (time s),
           newTween TargetPosition (snd (sectionPositions ! nat j)) 1.5 0 Power2InOut (time s)]"
  by (simp add: cameraTweens_def sectionPosition_at_valid [OF assms] case_prod_beta)

lemma hide_show_targets:
  "tw \<in> set (hideTweens s) \<Longrightarrow> tw_target tw \<noteq> CameraPosition \<and> tw_target tw \<noteq> TargetPosition"
  "tw \<in> set (showTweens m s) \<Longrightarrow> tw_target tw \<noteq> CameraPosition \<and> tw_target tw \<noteq> TargetPosition"
  by (auto simp: hideTweens_member showTweens_member)

lemma navigate_orderly:
  assumes "0 \<le> j" "j \<le> 4" "sectionName_at j = Some m"
  shows "orderly (cameraTweens j s @ hideTweens s @ showTweens m s)"
proof -
  have c: "orderly (cameraTweens j s)"
    by (simp add: cameraTweens_valid [OF assms(1,2)] newTween_def)
  have h: "orderly (hideTweens s)"
    by (rule orderly_same_end [where c = "time s + 0.5"]) (auto simp: hideTweens_member)
  have "map tw_target (showTweens m s) = map (ScaleOf m) [0..<length (objects s m)]"
    by (simp add: showTweens_def comp_def)
  then have "distinct (map tw_target (showTweens m s))"
    by (simp add: distinct_map inj_on_def)
  then have sh: "orderly (showTweens m s)"
    by (rule orderly_distinct) (auto simp: showTweens_member)
  have hs: "orderly (hideTweens s @ showTweens m s)"
    using h sh by (auto simp: orderly_append hideTweens_member showTweens_member)
  have "tw_target y \<noteq> tw_target x"
    if "x \<in> set (cameraTweens j s)" "y \<in> set (hideTweens s @ showTweens m s)" for x y
    using that hide_show_targets(1) [of y s] hide_show_targets(2) [of y m s]
    by (auto simp: cameraTweens_valid [OF assms(1,2)])
  with c hs show ?thesis
    by (subst orderly_append) blast
qed

lemma navigate_destination:
  assumes "tweens s = []" "0 \<le> j" "j \<le> 4" "sectionName_at j = Some m" "j \<noteq> currentSection s"
  shows "destination (stateOf (navigateToSection j s)) CameraPosition = fst (sectionPositions ! nat j)"
    and "destination (stateOf (navigateToSection j s)) TargetPosition = snd (sectionPositions ! nat j)"
    and "k < length (objects s n) \<Longrightarrow>
         destination (stateOf (navigateToSection j s)) (ScaleOf n k)
           = (if n = m then Vec3 1 1 1 else Vec3 0 0 0)"
proof -
  note nf = navigate_fields [OF assms(4,5)]
  have none: "dest (hideTweens s @ showTweens m s) g v = v"
    if "g = CameraPosition \<or> g = TargetPosition" for g v
    by (rule dest_none) (use that hide_show_targets(1) [of _ s] hide_show_targets(2) [of _ m s] in auto)
  show "destination (stateOf (navigateToSection j s)) CameraPosition = fst (sectionPositions ! nat j)"
    using none [of CameraPosition]
    by (simp add: destination_def nf assms(1) cameraTweens_valid [OF assms(2,3)]
        dest_append [of "[a, b]" for a b])
  show "destination (stateOf (navigateToSection j s)) TargetPosition = snd (sectionPositions ! nat j)"
    using none [of TargetPosition]
    by (simp add: destination_def nf assms(1) cameraTweens_valid [OF assms(2,3)]
        dest_append [of "[a, b]" for a b])
  assume k: "k < length (objects s n)"
  have hm: "newTween (ScaleOf n k) (Vec3 0 0 0) 0.5 0 Power2In (time s) \<in> set (hideTweens s)"
    using k by (auto simp: hideTweens_member)
  have h: "dest (hideTweens s) (ScaleOf n k) v = Vec3 0 0 0" for v
  proof (rule dest_const)
    show "\<forall>tw \<in> set (hideTweens s). tw_target tw = ScaleOf n k \<longrightarrow> tw_to tw = Vec3 0 0 0"
      by (auto simp: hideTweens_member)
    show "\<exists>tw \<in> set (hideTweens s). tw_target tw = ScaleOf n k"
      using hm by force
  qed
  show "destination (stateOf (navigateToSection j s)) (ScaleOf n k)
           = (if n = m then Vec3 1 1 1 else Vec3 0 0 0)"
  proof (cases "n = m")
    case True
    have sm: "newTween (ScaleOf m k) (Vec3 1 1 1) 0.5 (real k * 0.05) (BackOut 1.7) (time s)
                \<in> set (showTweens m s)"
      using k True by (auto simp: showTweens_member)
    have "dest (showTweens m s) (ScaleOf m k) v = Vec3 1 1 1" for v
    proof (rule dest_const)
      show "\<forall>tw \<in> set (showTweens m s). tw_target tw = ScaleOf m k \<longrightarrow> tw_to tw = Vec3 1 1 1"
        by (auto simp: showTweens_member)
      show "\<exists>tw \<in> set (showTweens m s). tw_target tw = ScaleOf m k"
        using sm by force
    qed
    with True show ?thesis
      by (simp add: destination_def nf assms(1) dest_append)
  next
    case False
    then have "dest (showTweens m s) (ScaleOf n k) v = v" for v
      by (intro dest_none) (auto simp: showTweens_member)
    with False h show ?thesis
      by (simp add: destination_def nf assms(1) dest_append)
  qed
qed

section \<open>Transitions that have run to completion\<close>

lemma frame_lookAt: "cam_lookAt (stateOf (frame fi s)) = Some (targetPosition (stateOf (frame fi s)))"
  by (simp add: stateOf_frame)

lemma run_fields:
  assumes "run fs s = Returns s'"
  shows "currentSection s' = currentSection s \<and> po_currentSection s' = po_currentSection s
       \<and> mousePosX s' = mousePosX s \<and> mousePosY s' = mousePosY s
       \<and> sections s' = sections s
       \<and> (\<forall>n. length (objects s' n) = length (objects s n))
       \<and> (\<forall>n k. k < length (objects s n) \<longrightarrow> ud_delay (objects s' n ! k) = ud_delay (objects s n ! k))
       \<and> (fs \<noteq> [] \<longrightarrow> cam_lookAt s' = Some (targetPosition s'))"
  using assms
proof (induction fs arbitrary: s)
  case Nil
  then show ?case by simp
next
  case (Cons fi fs)
  from Cons.prems obtain s1 where s1: "frame fi s = Returns s1" "run fs s1 = Returns s'"
    by (auto split: outcome.splits)
  then have eq: "s1 = stateOf (frame fi s)" by simp
  note ih = Cons.IH [OF s1(2)]
  have l: "cam_lookAt s' = Some (targetPosition s')"
  proof (cases "fs = []")
    case True
    with s1(2) have "s' = s1" by simp
    then show ?thesis by (simp add: eq frame_lookAt)
  next
    case False
    with ih show ?thesis by simp
  qed
  show ?case using ih l by (simp add: eq frame_delay)
qed

text \<open>
  A navigation to a valid section other than the current one, started when no tween is
  pending and followed by frames until no tween is pending again.
\<close>

lemma navigate_settles:
  assumes q: "tweens s = []" and j: "0 \<le> j" "j \<le> 4" and m: "sectionName_at j = Some m"
    and ne: "j \<noteq> currentSection s"
    and run: "run fs (stateOf (navigateToSection j s)) = Returns s2" and fin: "tweens s2 = []"
  shows "currentSection s2 = j" and "po_currentSection s2 = j"
    and "targetPosition s2 = snd (sectionPositions ! nat j)"
    and "mousePosX s = 0 \<Longrightarrow> mousePosY s = 0 \<Longrightarrow> cam_position s2 = fst (sectionPositions ! nat j)"
    and "k < length (objects s n) \<Longrightarrow> \<not> (n = Contact \<and> ud_delay (objects s n ! k) \<noteq> None) \<Longrightarrow>
           scale (objects s2 n ! k) = (if n = m then Vec3 1 1 1 else Vec3 0 0 0)"
    and "length (objects s2 n) = length (objects s n)"
    and "k < length (objects s n) \<Longrightarrow> ud_delay (objects s2 n ! k) = ud_delay (objects s n ! k)"
    and "cam_lookAt s2 = Some (targetPosition s2)"
    and "mousePosX s2 = mousePosX s" and "mousePosY s2 = mousePosY s"
proof -
  let ?s1 = "stateOf (navigateToSection j s)"
  note nf = navigate_fields [OF m ne]
  note rf = run_fields [OF run]
  have o: "orderly (tweens ?s1)"
    using navigate_orderly [OF j m, of s] by (simp add: nf q)
  have settle: "getTarget g s2 = destination ?s1 g" if "validTarget g ?s1" "stable g ?s1" for g
    using run_destination [OF run o that] destination_settled [OF fin, of g] by simp
  show "currentSection s2 = j" "po_currentSection s2 = j" using rf by (simp_all add: nf)
  show "targetPosition s2 = snd (sectionPositions ! nat j)"
    using settle [of TargetPosition] navigate_destination(2) [OF q j m ne] by simp
  show "cam_position s2 = fst (sectionPositions ! nat j)" if "mousePosX s = 0" "mousePosY s = 0"
    using settle [of CameraPosition] navigate_destination(1) [OF q j m ne] that by (simp add: nf)
  show "scale (objects s2 n ! k) = (if n = m then Vec3 1 1 1 else Vec3 0 0 0)"
    if "k < length (objects s n)" "\<not> (n = Contact \<and> ud_delay (objects s n ! k) \<noteq> None)"
    using settle [of "ScaleOf n k"] navigate_destination(3) [OF q j m ne that(1)] that
    by (simp add: nf)
  show "length (objects s2 n) = length (objects s n)" using rf by (simp add: nf)
  show "ud_delay (objects s2 n ! k) = ud_delay (objects s n ! k)" if "k < length (objects s n)"
    using rf that by (simp add: nf)
  have "tweens ?s1 \<noteq> []" by (simp add: nf cameraTweens_valid [OF j])
  with run fin have "fs \<noteq> []" by auto
  with rf show "cam_lookAt s2 = Some (targetPosition s2)" by simp
  show "mousePosX s2 = mousePosX s" "mousePosY s2 = mousePosY s" using rf by (simp_all add: nf)
qed

lemma raycast_current_only:
  assumes "sectionName_at (po_currentSection s) = Some n" "ray (objects s n) = ray' (objects s n)"
  shows "checkIntersections c now ray s = checkIntersections c now ray' s"
  using assms by (simp add: checkIntersections_def intersectObjects_def)

lemma hoveredObject_after [simp]:
  "hoveredObject (clearHover s) = None"
  "hoveredObject (handleObjectHover r s) = Some r"
  by (simp_all add: clearHover_def handleObjectHover_def Let_def split: option.splits)

lemma hover_in_current:
  assumes "sectionName_at (po_currentSection s) = Some m"
    and "hoveredObject (stateOf (checkIntersections False now ray s)) = Some (n, k)"
  shows "n = m \<and> k < length (objects s m)"
  using assms
  by (auto simp: checkIntersections_def intersectObjects_def split: option.splits if_splits)

section \<open>The current section\<close>

text \<open>
  In the state after construction section 0 is current and the first object of the
  about section has scale (1, 1, 1): not every object outside the current section has
  scale zero.
\<close>

lemma init_other_sections_visible:
  "\<not> (\<forall>n k. sectionName_at (po_currentSection (init [True, False, False, False, False] 1920 1080)) \<noteq> Some n
          \<longrightarrow> k < length (objects (init [True, False, False, False, False] 1920 1080) n)
          \<longrightarrow> scale (objects (init [True, False, False, False, False] 1920 1080) n ! k) = Vec3 0 0 0)"
proof
  let ?s = "init [True, False, False, False, False] 1920 1080"
  assume a: "\<forall>n k. sectionName_at (po_currentSection ?s) \<noteq> Some n
          \<longrightarrow> k < length (objects ?s n) \<longrightarrow> scale (objects ?s n ! k) = Vec3 0 0 0"
  have "sectionName_at (po_currentSection ?s) \<noteq> Some About"
    by (simp add: init_def sectionName_at_def sectionNames_def)
  moreover have "0 < length (objects ?s About)" by (simp add: init_def section_lengths)
  ultimately have "scale (objects ?s About ! 0) = Vec3 0 0 0" using a by blast
  moreover have "scale (objects ?s About ! 0) = Vec3 1 1 1"
    by (simp add: init_def createAboutSection_def cubePositions_def aboutCubes_def upt_rec
        newMesh_def newObject_def)
  ultimately show False by (simp add: Vec3_def)
qed

text \<open>
  In every state whose current index is in 0..4 the ray cast reads only the current
  section's list: two ray casts that agree on that list have the same effect, and an
  object hovered by it belongs to that list. After a navigation to a valid section
  \<open>j\<close> other than the current one, started when no tween is pending, and frames that
  run until no tween is pending again, \<open>j\<close> is current, and each object that is not a
  contact ring has scale one in section \<open>j\<close> and scale zero in the other sections.
\<close>

lemma navigation_settled:
  assumes "tweens s = []" and "0 \<le> j" and "j \<le> 4" and "j \<noteq> currentSection s"
    and "run fs (stateOf (navigateToSection j s)) = Returns s2" and "tweens s2 = []"
  shows "currentSection s2 = j \<and> po_currentSection s2 = j
       \<and> (\<forall>n k. sectionName_at j \<noteq> Some n \<longrightarrow> k < length (objects s2 n)
              \<longrightarrow> \<not> (n = Contact \<and> ud_delay (objects s2 n ! k) \<noteq> None)
              \<longrightarrow> scale (objects s2 n ! k) = Vec3 0 0 0)
       \<and> (\<forall>n k. sectionName_at j = Some n \<longrightarrow> k < length (objects s2 n)
              \<longrightarrow> \<not> (n = Contact \<and> ud_delay (objects s2 n ! k) \<noteq> None)
              \<longrightarrow> scale (objects s2 n ! k) = Vec3 1 1 1)
       \<and> (\<forall>n ray ray' c now. sectionName_at (po_currentSection s') = Some n
              \<longrightarrow> ray (objects s' n) = ray' (objects s' n)
              \<longrightarrow> checkIntersections c now ray s' = checkIntersections c now ray' s')
       \<and> (\<forall>m n k ray now. sectionName_at (po_currentSection s') = Some m
              \<longrightarrow> hoveredObject (stateOf (checkIntersections False now ray s')) = Some (n, k)
              \<longrightarrow> n = m \<and> k < length (objects s' m))"
proof -
  from sectionName_at_valid [OF assms(2,3)] obtain m where m: "sectionName_at j = Some m" ..
  note ns = navigate_settles [OF assms(1-3) m assms(4-6)]
  have sc: "scale (objects s2 n ! k) = (if n = m then Vec3 1 1 1 else Vec3 0 0 0)"
    if "k < length (objects s2 n)" "\<not> (n = Contact \<and> ud_delay (objects s2 n ! k) \<noteq> None)" for n k
    using that ns(5) [of k n] ns(6) [of n] ns(7) [of k n] by simp
  have c1: "currentSection s2 = j \<and> po_currentSection s2 = j" using ns(1,2) by simp
  have c2: "\<forall>n k. sectionName_at j \<noteq> Some n \<longrightarrow> k < length (objects s2 n)
              \<longrightarrow> \<not> (n = Contact \<and> ud_delay (objects s2 n ! k) \<noteq> None)
              \<longrightarrow> scale (objects s2 n ! k) = Vec3 0 0 0"
    using sc by (simp add: m)
  have c3: "\<forall>n k. sectionName_at j = Some n \<longrightarrow> k < length (objects s2 n)
              \<longrightarrow> \<not> (n = Contact \<and> ud_delay (objects s2 n ! k) \<noteq> None)
              \<longrightarrow> scale (objects s2 n ! k) = Vec3 1 1 1"
    using sc by (simp add: m)
  have c4: "\<forall>n ray ray' c now. sectionName_at (po_currentSection s') = Some n
              \<longrightarrow> ray (objects s' n) = ray' (objects s' n)
              \<longrightarrow> checkIntersections c now ray s' = checkIntersections c now ray' s'"
  proof (intro allI impI)
    fix n c now and ray ray' :: "prim list \<Rightarrow> intersection option"
    assume "sectionName_at (po_currentSection s') = Some n"
      and "ray (objects s' n) = ray' (objects s' n)"
    then show "checkIntersections c now ray s' = checkIntersections c now ray' s'"
      by (rule raycast_current_only [where ray = ray and ray' = ray'])
  qed
  have c5: "\<forall>m n k ray now. sectionName_at (po_currentSection s') = Some m
              \<longrightarrow> hoveredObject (stateOf (checkIntersections False now ray s')) = Some (n, k)
              \<longrightarrow> n = m \<and> k < length (objects s' m)"
  proof (intro allI impI)
    fix m n k ray now
    assume "sectionName_at (po_currentSection s') = Some m"
      and "hoveredObject (stateOf (checkIntersections False now ray s')) = Some (n, k)"
    then show "n = m \<and> k < length (objects s' m)" by (rule hover_in_current)
  qed
  from c1 c2 c3 c4 c5 show ?thesis by (intro conjI) blast+
qed

section \<open>Hero, Projects, Hero\<close>

lemma navigate_completes:
  assumes "tweens s = []" "0 \<le> j" "j \<le> 4" "sectionName_at j = Some m" "j \<noteq> currentSection s"
    and "time s + 3 / 2 \<le> t" and "time s + real (length (objects s m)) * 0.05 + 0.5 \<le> t"
    and "tw \<in> set (tweens (stateOf (navigateToSection j s)))"
  shows "completes t tw"
proof -
  from assms(8) have "tw \<in> set (cameraTweens j s) \<or> tw \<in> set (hideTweens s) \<or> tw \<in> set (showTweens m s)"
    by (simp add: navigate_fields(1) [OF assms(4,5)] assms(1))
  then show ?thesis
  proof (elim disjE)
    assume "tw \<in> set (cameraTweens j s)"
    then show ?thesis using assms(6)
      by (auto simp: cameraTweens_valid [OF assms(2,3)] completes_def)
  next
    assume "tw \<in> set (hideTweens s)"
    then show ?thesis using assms(6) by (auto simp: hideTweens_member completes_def)
  next
    assume "tw \<in> set (showTweens m s)"
    then obtain k where k: "k < length (objects s m)"
      "tw = newTween (ScaleOf m k) (Vec3 1 1 1) 0.5 (real k * 0.05) (BackOut 1.7) (time s)"
      by (auto simp: showTweens_member)
    from k(1) have "real k * 0.05 \<le> real (length (objects s m)) * 0.05" by simp
    with assms(7) show ?thesis by (simp add: k(2) completes_def)
  qed
qed

lemma frame_completes:
  "\<forall>tw \<in> set (tweens s). completes (fi_time fi) tw \<Longrightarrow> tweens (stateOf (frame fi s)) = []"
  by (simp add: renderAll_all_complete)

lemma frame_cam_position:
  "cam_position (stateOf (frame fi s))
     = (cam_position (snd (renderAll (fi_time fi) (tweens s) s)))
         \<lparr>vx := vx (cam_position (snd (renderAll (fi_time fi) (tweens s) s))) + mousePosX s * 0.0005,
          vy := vy (cam_position (snd (renderAll (fi_time fi) (tweens s) s))) + mousePosY s * 0.0005\<rparr>"
  by (simp add: stateOf_frame CameraController_update_def Let_def parallaxStrength_def
      gsapTick_objects)

lemma run_drift:
  assumes "tweens s = []" "0 \<le> po_currentSection s" "po_currentSection s \<le> 4"
  shows "\<exists>s'. run (replicate n fi) s = Returns s' \<and> tweens s' = []
           \<and> vx (cam_position s') = vx (cam_position s) + real n * (mousePosX s * 0.0005)
           \<and> vy (cam_position s') = vy (cam_position s) + real n * (mousePosY s * 0.0005)
           \<and> vz (cam_position s') = vz (cam_position s)"
  using assms
proof (induction n arbitrary: s)
  case 0
  then show ?case by simp
next
  case (Suc n)
  from frame_returns [OF Suc.prems(2,3), of fi] obtain s1 where f: "frame fi s = Returns s1" ..
  then have eq: "s1 = stateOf (frame fi s)" by simp
  have t1: "tweens s1 = []" by (simp add: eq Suc.prems(1))
  have c1: "cam_position s1
      = (cam_position s)\<lparr>vx := vx (cam_position s) + mousePosX s * 0.0005,
                           vy := vy (cam_position s) + mousePosY s * 0.0005\<rparr>"
    by (simp add: eq frame_cam_position Suc.prems(1))
  have m1: "mousePosX s1 = mousePosX s" "mousePosY s1 = mousePosY s"
    "po_currentSection s1 = po_currentSection s"
    by (simp_all add: eq)
  from Suc.IH [OF t1, of ] Suc.prems(2,3) m1 obtain s' where
    s': "run (replicate n fi) s1 = Returns s'" "tweens s' = []"
      "vx (cam_position s') = vx (cam_position s1) + real n * (mousePosX s1 * 0.0005)"
      "vy (cam_position s') = vy (cam_position s1) + real n * (mousePosY s1 * 0.0005)"
      "vz (cam_position s') = vz (cam_position s1)"
    by auto
  show ?case
    using s' by (simp add: f c1 m1 algebra_simps)
qed

lemma navigate_one_frame:
  assumes "tweens s = []" "0 \<le> j" "j \<le> 4" "sectionName_at j = Some m" "j \<noteq> currentSection s"
    and "time s + 3 / 2 \<le> fi_time fi"
    and "time s + real (length (objects s m)) * 0.05 + 0.5 \<le> fi_time fi"
  shows "\<exists>s2. run [fi] (stateOf (navigateToSection j s)) = Returns s2 \<and> tweens s2 = []
            \<and> time s2 = fi_time fi"
proof -
  let ?s1 = "stateOf (navigateToSection j s)"
  have p: "po_currentSection ?s1 = j" by (rule navigate_fields(8) [OF assms(4,5)])
  from frame_returns [of ?s1 fi] p assms(2,3) obtain s2 where f: "frame fi ?s1 = Returns s2"
    by auto
  then have eq: "s2 = stateOf (frame fi ?s1)" by simp
  have "\<forall>tw \<in> set (tweens ?s1). completes (fi_time fi) tw"
    using navigate_completes [OF assms] by blast
  then have "tweens s2 = []" unfolding eq by (rule frame_completes)
  moreover have "time s2 = fi_time fi" by (simp add: eq)
  ultimately show ?thesis using f by simp
qed

lemma init_fields:
  "tweens (init page w h) = []" "currentSection (init page w h) = 0"
  "po_currentSection (init page w h) = 0" "time (init page w h) = 0"
  "mousePosX (init page w h) = 0" "mousePosY (init page w h) = 0"
  "objects (init page w h) = createAllSections"
  "cam_position (init page w h) = Vec3 0 0 15"
  by (simp_all add: init_def)

lemma range_numerals: "(0::int) \<le> 2" "(2::int) \<le> 4" "(0::int) \<le> 0" "(0::int) \<le> 4"
  by simp_all

lemma sectionName_at_numerals:
  "sectionName_at 0 = Some Hero" "sectionName_at 1 = Some About" "sectionName_at 2 = Some Projects"
  "sectionName_at 3 = Some Skills" "sectionName_at 4 = Some Contact"
  by (simp_all add: sectionName_at_def sectionNames_def)

lemma navigation_settled_example:
  "\<exists>s2. run [\<lparr>fi_time = 2, fi_elapsed = 2, fi_delta = 2, fi_wall = 2000, fi_ray = (\<lambda>objs. None)\<rparr>]
            (stateOf (navigateToSection 2 (init [True, False, False, False, False] 1920 1080)))
          = Returns s2
        \<and> tweens s2 = [] \<and> po_currentSection s2 = 2
        \<and> scale (objects s2 Hero ! 0) = Vec3 0 0 0
        \<and> scale (objects s2 Projects ! 0) = Vec3 1 1 1
        \<and> checkIntersections False 0 (\<lambda>objs. if length objs = 7 then Some \<lparr>ix_object = 3, ix_point = Pos 0 0 0\<rparr> else None) s2
            = checkIntersections False 0 (\<lambda>objs. Some \<lparr>ix_object = 3, ix_point = Pos 0 0 0\<rparr>) s2"
proof -
  let ?s = "init [True, False, False, False, False] 1920 1080"
  let ?fi = "\<lparr>fi_time = 2, fi_elapsed = 2, fi_delta = 2, fi_wall = 2000, fi_ray = (\<lambda>objs. None)\<rparr>"
  have ne: "2 \<noteq> currentSection ?s" by (simp add: init_fields)
  from navigate_one_frame [of ?s 2 Projects ?fi] ne
  obtain s2 where s2: "run [?fi] (stateOf (navigateToSection 2 ?s)) = Returns s2" "tweens s2 = []"
    by (auto simp: init_fields sectionName_at_numerals section_lengths)
  have len: "length (objects s2 n) = length (createAllSections n)" for n
    using run_fields [OF s2(1)] by (simp add: navigate_fields(2) [OF sectionName_at_numerals(3) ne] init_fields)
  have h: "0 < length (objects s2 Hero)" "0 < length (objects s2 Projects)"
    "length (objects s2 Projects) = 7"
    by (simp_all add: len section_lengths)
  note inst = navigation_settled [of ?s 2 "[?fi]" s2 s2, OF init_fields(1) range_numerals(1,2) ne s2]
  note p = inst [THEN conjunct2, THEN conjunct1]
  note zero = inst [THEN conjunct2, THEN conjunct2, THEN conjunct1, rule_format]
  note one = inst [THEN conjunct2, THEN conjunct2, THEN conjunct2, THEN conjunct1, rule_format]
  note rays = inst [THEN conjunct2, THEN conjunct2, THEN conjunct2, THEN conjunct2,
      THEN conjunct1, rule_format]
  have a: "scale (objects s2 Hero ! 0) = Vec3 0 0 0"
    using h by (intro zero) (simp_all add: sectionName_at_numerals)
  have b: "scale (objects s2 Projects ! 0) = Vec3 1 1 1"
    using h by (intro one) (simp_all add: sectionName_at_numerals)
  have c: "checkIntersections False 0 (\<lambda>objs. if length objs = 7 then Some \<lparr>ix_object = 3, ix_point = Pos 0 0 0\<rparr> else None) s2
            = checkIntersections False 0 (\<lambda>objs. Some \<lparr>ix_object = 3, ix_point = Pos 0 0 0\<rparr>) s2"
    using h by (intro rays [of Projects]) (simp_all add: p sectionName_at_numerals)
  show ?thesis using s2 p a b c by blast
qed

text \<open>
  From the state after construction, with the pointer never moved: navigate to section 2
  (Projects), run frames until no tween is pending, navigate to section 0 (Hero) and
  again run frames until no tween is pending. Then the camera is at (0, 0, 15) looking
  at (0, 0, 0), the stored Hero pose, each of the ten hero objects has scale one and
  each of the seven project objects has scale zero.
\<close>

lemma hero_projects_hero_settled:
  assumes "run fs1 (stateOf (navigateToSection 2 (init page w h))) = Returns s2"
    and "tweens s2 = []"
    and "run fs2 (stateOf (navigateToSection 0 s2)) = Returns s4"
    and "tweens s4 = []"
  shows "cam_position s4 = Vec3 0 0 15 \<and> targetPosition s4 = Vec3 0 0 0
       \<and> (cam_position s4, targetPosition s4) = sectionPositions ! 0
       \<and> cam_lookAt s4 = Some (Vec3 0 0 0)
       \<and> map scale (objects s4 Hero) = replicate 10 (Vec3 1 1 1)
       \<and> map scale (objects s4 Projects) = replicate 7 (Vec3 0 0 0)
       \<and> currentSection s4 = 0 \<and> po_currentSection s4 = 0"
proof -
  let ?s = "init page w h"
  have ne1: "2 \<noteq> currentSection ?s" by (simp add: init_fields)
  note a = navigate_settles [OF init_fields(1) range_numerals(1,2) sectionName_at_numerals(3) ne1 assms(1,2)]
  have cur2: "currentSection s2 = 2" using a(1) by simp
  have ne2: "0 \<noteq> currentSection s2" by (simp add: cur2)
  have mouse2: "mousePosX s2 = 0" "mousePosY s2 = 0" using a(9,10) by (simp_all add: init_fields)
  have len2: "length (objects s2 n) = length (createAllSections n)" for n
    using a(6) [of n] by (simp add: init_fields)
  note b = navigate_settles [OF assms(2) range_numerals(3,4) sectionName_at_numerals(1) ne2 assms(3,4)]
  have cam: "cam_position s4 = Vec3 0 0 15" using b(4) [OF mouse2] by (simp add: sectionPositions_def)
  have tgt: "targetPosition s4 = Vec3 0 0 0" using b(3) by (simp add: sectionPositions_def)
  have look: "cam_lookAt s4 = Some (Vec3 0 0 0)" using b(8) tgt by simp
  have len4: "length (objects s4 n) = length (createAllSections n)" for n
    using b(6) [of n] by (simp add: len2)
  have hero: "scale (objects s4 Hero ! k) = Vec3 1 1 1" if "k < 10" for k
    using b(5) [of k Hero] that by (simp add: len2 section_lengths)
  have proj: "scale (objects s4 Projects ! k) = Vec3 0 0 0" if "k < 7" for k
    using b(5) [of k Projects] that by (simp add: len2 section_lengths)
  have h: "map scale (objects s4 Hero) = replicate 10 (Vec3 1 1 1)"
    by (rule nth_equalityI) (simp_all add: len4 section_lengths hero)
  have p: "map scale (objects s4 Projects) = replicate 7 (Vec3 0 0 0)"
    by (rule nth_equalityI) (simp_all add: len4 section_lengths proj)
  have pose: "(cam_position s4, targetPosition s4) = sectionPositions ! 0"
    by (simp add: cam tgt sectionPositions_def)
  show ?thesis using cam tgt pose look h p b(1,2) by simp
qed

lemma hero_projects_hero_example:
  "\<exists>s2 s4.
      run [\<lparr>fi_time = 2, fi_elapsed = 2, fi_delta = 2, fi_wall = 2000, fi_ray = (\<lambda>objs. None)\<rparr>]
        (stateOf (navigateToSection 2 (init [True, False, False, False, False] 1920 1080)))
        = Returns s2
      \<and> tweens s2 = []
      \<and> run [\<lparr>fi_time = 4, fi_elapsed = 4, fi_delta = 2, fi_wall = 4000, fi_ray = (\<lambda>objs. None)\<rparr>]
          (stateOf (navigateToSection 0 s2)) = Returns s4
      \<and> tweens s4 = []
      \<and> cam_position s4 = Vec3 0 0 15 \<and> targetPosition s4 = Vec3 0 0 0
      \<and> map scale (objects s4 Hero) = replicate 10 (Vec3 1 1 1)
      \<and> map scale (objects s4 Projects) = replicate 7 (Vec3 0 0 0)"
proof -
  let ?s = "init [True, False, False, False, False] 1920 1080"
  let ?f2 = "\<lparr>fi_time = 2, fi_elapsed = 2, fi_delta = 2, fi_wall = 2000, fi_ray = (\<lambda>objs. None)\<rparr>"
  let ?f4 = "\<lparr>fi_time = 4, fi_elapsed = 4, fi_delta = 2, fi_wall = 4000, fi_ray = (\<lambda>objs. None)\<rparr>"
  have ne: "2 \<noteq> currentSection ?s" by (simp add: init_fields)
  from navigate_one_frame [of ?s 2 Projects ?f2] ne
  obtain s2 where s2: "run [?f2] (stateOf (navigateToSection 2 ?s)) = Returns s2" "tweens s2 = []"
    "time s2 = 2"
    by (auto simp: init_fields sectionName_at_numerals section_lengths)
  note a = navigate_settles [OF init_fields(1) range_numerals(1,2) sectionName_at_numerals(3) ne s2(1,2)]
  have ne2: "0 \<noteq> currentSection s2" using a(1) by simp
  have len2: "length (objects s2 Hero) = 10" using a(6) [of Hero] by (simp add: init_fields section_lengths)
  from navigate_one_frame [of s2 0 Hero ?f4] ne2
  obtain s4 where s4: "run [?f4] (stateOf (navigateToSection 0 s2)) = Returns s4" "tweens s4 = []"
    by (auto simp: s2 sectionName_at_numerals len2)
  show ?thesis
    using hero_projects_hero_settled [OF s2(1,2) s4] s2 s4 by blast
qed

lemma tick_reaches_destination:
  assumes "orderly (tweens s)" "validTarget g s" "\<forall>tw \<in> set (tweens s). completes t tw"
  shows "getTarget g (snd (renderAll t (tweens s) s)) = destination s g"
  using dest_renderAll [OF assms(1,2), of t] renderAll_all_complete [OF assms(3), of s]
  by (simp add: destination_def)

text \<open>
  With the pointer at the right edge of the window (\<open>mousePosX = 1\<close>) every frame moves
  the camera by 0.0005 along x, also after the transitions have completed: the same
  scenario followed by 19999 more frames leaves the camera at x = 10 while the Hero pose
  has x = 0.
\<close>

lemma parallax_drift_example:
  "(case run [\<lparr>fi_time = 2, fi_elapsed = 2, fi_delta = 2, fi_wall = 2000, fi_ray = (\<lambda>objs. None)\<rparr>]
           (stateOf (navigateToSection 2
              (handleMouseMove 1920 540 (init [True, False, False, False, False] 1920 1080))))
    of Throws e s \<Rightarrow> False
     | Returns s2 \<Rightarrow>
         tweens s2 = []
         \<and> (case run (\<lparr>fi_time = 4, fi_elapsed = 4, fi_delta = 2, fi_wall = 4000, fi_ray = (\<lambda>objs. None)\<rparr>
                       # replicate 19999
                           \<lparr>fi_time = 5, fi_elapsed = 5, fi_delta = 1, fi_wall = 5000,
                            fi_ray = (\<lambda>objs. None)\<rparr>)
                    (stateOf (navigateToSection 0 s2))
             of Throws e s \<Rightarrow> False
              | Returns s4 \<Rightarrow> tweens s4 = [] \<and> currentSection s4 = 0 \<and> vx (cam_position s4) = 10))"
proof -
  let ?m = "handleMouseMove 1920 540 (init [True, False, False, False, False] 1920 1080)"
  let ?f2 = "\<lparr>fi_time = 2, fi_elapsed = 2, fi_delta = 2, fi_wall = 2000, fi_ray = (\<lambda>objs. None)\<rparr>"
  let ?f4 = "\<lparr>fi_time = 4, fi_elapsed = 4, fi_delta = 2, fi_wall = 4000, fi_ray = (\<lambda>objs. None)\<rparr>"
  let ?f5 = "\<lparr>fi_time = 5, fi_elapsed = 5, fi_delta = 1, fi_wall = 5000, fi_ray = (\<lambda>objs. None)\<rparr>"
  have m: "tweens ?m = []" "currentSection ?m = 0" "time ?m = 0" "mousePosX ?m = 1"
    "mousePosY ?m = 0" "objects ?m = createAllSections"
    by (simp_all add: handleMouseMove_def init_def)
  have ne: "2 \<noteq> currentSection ?m" by (simp add: m)
  from navigate_one_frame [of ?m 2 Projects ?f2] ne
  obtain s2 where s2: "run [?f2] (stateOf (navigateToSection 2 ?m)) = Returns s2" "tweens s2 = []"
    "time s2 = 2"
    by (auto simp: m sectionName_at_numerals section_lengths)
  note a = navigate_settles [OF m(1) range_numerals(1,2) sectionName_at_numerals(3) ne s2(1,2)]
  have ne2: "0 \<noteq> currentSection s2" using a(1) by simp
  have mouse2: "mousePosX s2 = 1" "mousePosY s2 = 0" using a(9,10) by (simp_all add: m)
  have len2: "length (objects s2 Hero) = 10" using a(6) [of Hero] by (simp add: m section_lengths)
  let ?s3 = "stateOf (navigateToSection 0 s2)"
  note nf = navigate_fields [OF sectionName_at_numerals(1) ne2]
  have comp: "\<forall>tw \<in> set (tweens ?s3). completes (fi_time ?f4) tw"
    using navigate_completes [OF s2(2) range_numerals(3,4) sectionName_at_numerals(1) ne2, of "fi_time ?f4"]
    by (simp add: s2(3) len2)
  from frame_returns [of ?s3 ?f4] obtain s3a where f4: "frame ?f4 ?s3 = Returns s3a"
    by (auto simp: nf)
  then have eq: "s3a = stateOf (frame ?f4 ?s3)" by simp
  have t3a: "tweens s3a = []" unfolding eq by (rule frame_completes [OF comp])
  have o: "orderly (tweens ?s3)"
    using navigate_orderly [OF range_numerals(3,4) sectionName_at_numerals(1), of s2]
    by (simp add: nf s2(2))
  have "getTarget CameraPosition (snd (renderAll (fi_time ?f4) (tweens ?s3) ?s3))
          = destination ?s3 CameraPosition"
    by (rule tick_reaches_destination [OF o _ comp]) simp
  then have tick: "cam_position (snd (renderAll 4 (tweens ?s3) ?s3)) = Vec3 0 0 15"
    using navigate_destination(1) [OF s2(2) range_numerals(3,4) sectionName_at_numerals(1) ne2]
    by (simp add: sectionPositions_def)
  have cam3a: "vx (cam_position s3a) = 0.0005"
    unfolding eq by (simp add: frame_cam_position tick nf(5,6) mouse2 Vec3_def)
  have f3a: "mousePosX s3a = 1" "po_currentSection s3a = 0" "currentSection s3a = 0"
    unfolding eq by (simp_all add: nf mouse2)
  from run_drift [OF t3a, of 19999 ?f5] f3a
  obtain s4 where s4: "run (replicate 19999 ?f5) s3a = Returns s4" "tweens s4 = []"
    "vx (cam_position s4) = vx (cam_position s3a) + real 19999 * (mousePosX s3a * 0.0005)"
    by auto
  have cur4: "currentSection s4 = 0" using run_fields [OF s4(1)] f3a by simp
  have x4: "vx (cam_position s4) = 10" using s4(3) by (simp add: cam3a f3a)
  have r4: "run (?f4 # replicate 19999 ?f5) ?s3 = Returns s4"
    by (simp add: f4 s4(1))
  show ?thesis
    by (simp only: s2(1) r4 outcome.case s2(2) s4(2) cur4 x4 simp_thms)
qed

section \<open>Further facts about transitions\<close>

text \<open>
  After every frame a contact ring has the scale the per-frame update gives it, between
  0.8 and 1.2, whichever section is current and whatever tween is on it.
\<close>

lemma frame_contact_ring:
  assumes "k < length (objects s Contact)" "ud_delay (objects s Contact ! k) = Some d"
  shows "scale (objects (stateOf (frame fi s)) Contact ! k)
           = Vec3 (1 + sin (fi_elapsed fi * 2 - d) * 0.2) (1 + sin (fi_elapsed fi * 2 - d) * 0.2)
               (1 + sin (fi_elapsed fi * 2 - d) * 0.2)"
    and "0.8 \<le> 1 + sin (fi_elapsed fi * 2 - d) * 0.2"
proof -
  let ?s1 = "snd (renderAll (fi_time fi) (tweens s) s)"
  have d: "ud_delay (objects ?s1 Contact ! k) = Some d" by (simp add: renderAll_delay assms(2))
  have l: "k < length (objects ?s1 Contact)" by (simp add: assms(1))
  show "scale (objects (stateOf (frame fi s)) Contact ! k)
           = Vec3 (1 + sin (fi_elapsed fi * 2 - d) * 0.2) (1 + sin (fi_elapsed fi * 2 - d) * 0.2)
               (1 + sin (fi_elapsed fi * 2 - d) * 0.2)"
    using l d
    by (simp add: stateOf_frame checkIntersections_hover_keeps PortfolioObjects_update_def
        gsapTick_objects updateContact_def Let_def)
  have "- 1 \<le> sin (fi_elapsed fi * 2 - d)" by (rule sin_ge_minus_one)
  then show "0.8 \<le> 1 + sin (fi_elapsed fi * 2 - d) * 0.2" by linarith
qed

lemma renderAll_rest_pending:
  "x \<in> set (fst (renderAll t tws s)) \<Longrightarrow>
     \<exists>y \<in> set tws. \<not> completes t y \<and> (\<exists>f. x = y\<lparr>tw_from := f\<rparr>)"
proof (induction tws arbitrary: s)
  case Nil
  then show ?case by simp
next
  case (Cons tw tws)
  let ?s1 = "snd (renderTween t tw s)"
  show ?case
  proof (cases "completes t tw")
    case True
    then have "fst (renderAll t (tw # tws) s) = fst (renderAll t tws ?s1)"
      by (simp add: renderTween_completes case_prod_beta)
    with Cons.prems Cons.IH [of ?s1] show ?thesis by auto
  next
    case False
    from renderTween_pending [OF False, of s] obtain f
      where f: "fst (renderTween t tw s) = Some (tw\<lparr>tw_from := f\<rparr>)" ..
    then have "fst (renderAll t (tw # tws) s) = tw\<lparr>tw_from := f\<rparr> # fst (renderAll t tws ?s1)"
      by (simp add: case_prod_beta)
    with Cons.prems Cons.IH [of ?s1] False show ?thesis by auto
  qed
qed

lemma renderAll_keeps_pending:
  "y \<in> set tws \<Longrightarrow> \<not> completes t y \<Longrightarrow>
     \<exists>f. y\<lparr>tw_from := f\<rparr> \<in> set (fst (renderAll t tws s))"
proof (induction tws arbitrary: s)
  case Nil
  then show ?case by simp
next
  case (Cons tw tws)
  let ?s1 = "snd (renderTween t tw s)"
  show ?case
  proof (cases "completes t tw")
    case True
    then have eq: "fst (renderAll t (tw # tws) s) = fst (renderAll t tws ?s1)"
      by (simp add: renderTween_completes case_prod_beta)
    from True Cons.prems have "y \<in> set tws" by auto
    from Cons.IH [OF this Cons.prems(2), of ?s1] show ?thesis by (simp only: eq)
  next
    case False
    from renderTween_pending [OF False, of s] obtain f
      where f: "fst (renderTween t tw s) = Some (tw\<lparr>tw_from := f\<rparr>)" ..
    then have eq: "fst (renderAll t (tw # tws) s) = tw\<lparr>tw_from := f\<rparr> # fst (renderAll t tws ?s1)"
      by (simp add: case_prod_beta)
    show ?thesis
    proof (cases "y = tw")
      case True
      then show ?thesis by (auto simp only: eq list.set intro: exI [of _ f])
    next
      case False
      with Cons.prems have "y \<in> set tws" by auto
      from Cons.IH [OF this Cons.prems(2), of ?s1] show ?thesis by (auto simp only: eq list.set)
    qed
  qed
qed

lemma tick_all_complete:
  assumes "\<forall>tw \<in> set tws. completes t tw" "validTarget g s"
  shows "getTarget g (snd (renderAll t tws s)) = dest tws g (getTarget g s)"
  using assms
proof (induction tws arbitrary: s)
  case Nil
  then show ?case by simp
next
  case (Cons tw tws)
  from Cons.prems(1) have c: "completes t tw" by simp
  let ?s1 = "setTarget (tw_target tw) (tw_to tw) s"
  have ih: "getTarget g (snd (renderAll t tws ?s1)) = dest tws g (getTarget g ?s1)"
    using Cons.IH [of ?s1] Cons.prems by simp
  have "getTarget g ?s1 = (if tw_target tw = g then tw_to tw else getTarget g s)"
    using Cons.prems(2) by (auto simp: getTarget_setTarget_same getTarget_setTarget_other)
  with ih show ?case by (simp add: renderTween_completes [OF c] case_prod_beta)
qed

lemma completes_from [simp]: "completes t (tw\<lparr>tw_from := f\<rparr>) = completes t tw"
  by (simp add: completes_def tw_end_def)

text \<open>
  Claim C3 says that after Hero, Projects, Hero, once all transitions have run to
  completion, every Projects object has scale zero. From the state after construction,
  with the pointer never moved: navigate to Projects and at once back to Hero, then a
  frame at 0.55 s and a frame at 2 s. Both frames return, no tween is pending after
  them and Hero is current, and the project objects 2..6 have scale one. The hide
  tweens of both navigations end at 0.5 s; the show tween that the first navigation
  gave project object \<open>k\<close> runs from \<open>0.05 * k\<close> s to \<open>0.05 * k + 0.5\<close> s, so for
  \<open>k\<close> from 2 on it is the last to write that object's scale.
\<close>

theorem C3_rapid_navigation:
  "(case run [\<lparr>fi_time = 0.55, fi_elapsed = 0.55, fi_delta = 0.55, fi_wall = 550, fi_ray = (\<lambda>objs. None)\<rparr>,
              \<lparr>fi_time = 2, fi_elapsed = 2, fi_delta = 1.45, fi_wall = 2000, fi_ray = (\<lambda>objs. None)\<rparr>]
          (stateOf (navigateToSection 0
             (stateOf (navigateToSection 2 (init [True, False, False, False, False] 1920 1080)))))
    of Throws e s \<Rightarrow> False
     | Returns s5 \<Rightarrow>
         tweens s5 = [] \<and> currentSection s5 = 0 \<and> po_currentSection s5 = 0
         \<and> length (objects s5 Projects) = 7
         \<and> map scale (drop 2 (objects s5 Projects)) = replicate 5 (Vec3 1 1 1))"
proof -
  let ?s0 = "init [True, False, False, False, False] 1920 1080"
  let ?s1 = "stateOf (navigateToSection 2 ?s0)"
  let ?s3 = "stateOf (navigateToSection 0 ?s1)"
  let ?fa = "\<lparr>fi_time = 0.55, fi_elapsed = 0.55, fi_delta = 0.55, fi_wall = 550, fi_ray = (\<lambda>objs. None)\<rparr>"
  let ?fb = "\<lparr>fi_time = 2, fi_elapsed = 2, fi_delta = 1.45, fi_wall = 2000, fi_ray = (\<lambda>objs. None)\<rparr>"
  have ne1: "2 \<noteq> currentSection ?s0" by (simp add: init_fields)
  note n1 = navigate_fields [OF sectionName_at_numerals(3) ne1]
  have ne2: "0 \<noteq> currentSection ?s1" by (simp add: n1)
  note n3 = navigate_fields [OF sectionName_at_numerals(1) ne2]
  have obj: "objects ?s3 = createAllSections" "time ?s1 = 0" "objects ?s1 = createAllSections"
    by (simp_all add: n3 n1 init_fields)
  have tw3: "tweens ?s3 = (cameraTweens 2 ?s0 @ hideTweens ?s0 @ showTweens Projects ?s0)
                @ cameraTweens 0 ?s1 @ hideTweens ?s1 @ showTweens Hero ?s1"
    by (simp add: n3(1) n1(1) init_fields)
  have cases3: "y \<in> set (cameraTweens 2 ?s0) \<or> y \<in> set (cameraTweens 0 ?s1)
        \<or> y \<in> set (hideTweens ?s0) \<or> y \<in> set (hideTweens ?s1)
        \<or> y \<in> set (showTweens Projects ?s0) \<or> y \<in> set (showTweens Hero ?s1)"
    if "y \<in> set (tweens ?s3)" for y
    using that by (auto simp: tw3)
  have late: "completes 2 y" if "y \<in> set (tweens ?s3)" for y
    using cases3 [OF that]
    by (auto simp: cameraTweens_valid hideTweens_member showTweens_member completes_def
        obj init_fields section_lengths)
  from frame_returns [of ?s3 ?fa] obtain sA where fa: "frame ?fa ?s3 = Returns sA"
    by (auto simp: n3)
  then have eqA: "sA = stateOf (frame ?fa ?s3)" by simp
  have twA: "tweens sA = fst (renderAll 0.55 (tweens ?s3) ?s3)" by (simp add: eqA)
  have poA: "po_currentSection sA = 0" "currentSection sA = 0" by (simp_all add: eqA n3)
  from frame_returns [of sA ?fb] obtain sB where fb: "frame ?fb sA = Returns sB"
    by (auto simp: poA)
  then have eqB: "sB = stateOf (frame ?fb sA)" by simp
  have allA: "\<forall>x \<in> set (tweens sA). completes 2 x"
  proof
    fix x assume "x \<in> set (tweens sA)"
    from renderAll_rest_pending [OF this [unfolded twA]] late show "completes 2 x" by auto
  qed
  have doneB: "tweens sB = []"
    unfolding eqB by (rule frame_completes) (simp add: allA)
  have lenB: "length (objects sB Projects) = 7"
    by (simp add: eqB eqA obj section_lengths)
  have sc: "scale (objects sB Projects ! k) = Vec3 1 1 1" if k: "2 \<le> k" "k < 7" for k
  proof -
    let ?g = "ScaleOf Projects k"
    let ?y = "newTween ?g (Vec3 1 1 1) 0.5 (real k * 0.05) (BackOut 1.7) 0"
    have on_g: "tw_to y = Vec3 1 1 1"
      if "y \<in> set (tweens ?s3)" "tw_target y = ?g" "\<not> completes 0.55 y" for y
      using cases3 [OF that(1)] that(2,3)
      by (auto simp: cameraTweens_valid hideTweens_member showTweens_member completes_def
          obj init_fields)
    have "?y \<in> set (showTweens Projects ?s0)"
      unfolding showTweens_member using k(2)
      by (intro exI [of _ k]) (simp add: init_fields section_lengths)
    then have y3: "?y \<in> set (tweens ?s3)" by (simp add: tw3)
    have "2 \<le> real k" using k(1) by simp
    then have ny: "\<not> completes 0.55 ?y" by (simp add: completes_def tw_end_def newTween_def)
    have validA: "validTarget ?g sA" using k(2) by (simp add: eqA obj section_lengths)
    have stableA: "stable ?g sA" by simp
    have toA: "\<forall>x \<in> set (tweens sA). tw_target x = ?g \<longrightarrow> tw_to x = Vec3 1 1 1"
    proof (intro ballI impI)
      fix x assume x: "x \<in> set (tweens sA)" "tw_target x = ?g"
      from renderAll_rest_pending [OF x(1) [unfolded twA]] obtain y f
        where y: "y \<in> set (tweens ?s3)" "\<not> completes 0.55 y" "x = y\<lparr>tw_from := f\<rparr>" by auto
      with x(2) on_g [of y] show "tw_to x = Vec3 1 1 1" by simp
    qed
    from renderAll_keeps_pending [OF y3 ny, of ?s3] obtain f
      where "?y\<lparr>tw_from := f\<rparr> \<in> set (tweens sA)" by (auto simp: twA)
    then have exA: "\<exists>x \<in> set (tweens sA). tw_target x = ?g" by force
    have "getTarget ?g sB = getTarget ?g (snd (renderAll (fi_time ?fb) (tweens sA) sA))"
      unfolding eqB by (rule frame_getTarget [OF validA stableA])
    also have "\<dots> = dest (tweens sA) ?g (getTarget ?g sA)"
      using allA validA by (intro tick_all_complete) simp_all
    also have "\<dots> = Vec3 1 1 1" by (rule dest_const [OF toA exA])
    finally show ?thesis by simp
  qed
  have dr: "map scale (drop 2 (objects sB Projects)) = replicate 5 (Vec3 1 1 1)"
    by (rule nth_equalityI) (simp_all add: lenB sc)
  have cur: "currentSection sB = 0" "po_currentSection sB = 0" by (simp_all add: eqB poA)
  have r: "run [?fa, ?fb] ?s3 = Returns sB" by (simp only: run.simps fa fb outcome.case)
  show ?thesis by (simp only: r outcome.case doneB cur lenB dr simp_thms)
qed

section \<open>The objects after construction\<close>

lemma allObjects_member:
  assumes "k < length (objs n)"
  shows "objs n ! k \<in> set (allObjects objs)"
proof -
  have "objs n ! k \<in> set (objs n)" using assms by simp
  with sectionNames_all [of n] show ?thesis
    unfolding allObjects_def by (simp only: set_concat set_map) blast
qed

lemma init_object_scale:
  assumes "k < length (objects (init page w h) n)"
  shows "scale (objects (init page w h) n ! k) = Vec3 1 1 1"
proof -
  have "objects (init page w h) n ! k \<in> set (allObjects (objects (init page w h)))"
    using assms by (rule allObjects_member [where objs = "objects (init page w h)"])
  then have "scale (objects (init page w h) n ! k)
               \<in> set (map scale (allObjects (objects (init page w h))))"
    by simp
  then show ?thesis by (simp only: init_scales [THEN conjunct1]) simp
qed

lemma run_no_tweens:
  "run fs s = Returns s' \<Longrightarrow> tweens s = [] \<Longrightarrow> tweens s' = []"
proof (induction fs arbitrary: s)
  case Nil
  then show ?case by simp
next
  case (Cons fi fs)
  from Cons.prems(1) obtain s1 where s1: "frame fi s = Returns s1" "run fs s1 = Returns s'"
    by (auto split: outcome.splits)
  then have "s1 = stateOf (frame fi s)" by simp
  then have "tweens s1 = []" by (simp add: Cons.prems(2))
  with Cons.IH [OF s1(2)] show ?case by simp
qed

section \<open>The wheel debounce\<close>

lemma tweens_scrollTimeout:
  "cameraTweens j (s\<lparr>scrollTimeout := x\<rparr>) = cameraTweens j s"
  "hideTweens (s\<lparr>scrollTimeout := x\<rparr>) = hideTweens s"
  "showTweens m (s\<lparr>scrollTimeout := x\<rparr>) = showTweens m s"
  by (simp_all add: cameraTweens_def hideTweens_def showTweens_def
      split: option.splits prod.splits)

lemma fireScrollTimeout_two_events:
  assumes "t2 + 100 \<le> T"
  shows "fireScrollTimeout T (wheel t2 d2 (wheel t1 d1 s))
           = scrollCallback d2 (s\<lparr>scrollTimeout := None\<rparr>)"
  using assms by (simp add: fireScrollTimeout_def wheel_def)

text \<open>
  Claim C8, as stated, has exactly one navigation step for every two wheel events
  inside the window. With Projects current (section 2, neither bound), a wheel event at
  0 ms with \<open>deltaY = 120\<close> and a second one at 40 ms with \<open>deltaY = 0\<close>: when the timer
  runs at 150 ms no navigation happens, and the state is the one before the two events.
\<close>

theorem C8_counterexample:
  "currentSection (stateOf (navigateToSection 2 (init [True, False, False, False, False] 1920 1080))) = 2
   \<and> fireScrollTimeout 150
        (wheel 40 0 (wheel 0 120
           (stateOf (navigateToSection 2 (init [True, False, False, False, False] 1920 1080)))))
       = Returns (stateOf (navigateToSection 2 (init [True, False, False, False, False] 1920 1080)))"
proof -
  let ?s0 = "init [True, False, False, False, False] 1920 1080"
  let ?S = "stateOf (navigateToSection 2 ?s0)"
  have ne: "2 \<noteq> currentSection ?s0" by (simp add: init_fields)
  have cur: "currentSection ?S = 2" by (rule navigate_fields(7) [OF sectionName_at_numerals(3) ne])
  have "scrollTimeout ?S = scrollTimeout ?s0"
    by (simp add: navigate_state [OF sectionName_at_numerals(3) ne])
  then have "scrollTimeout ?S = None" by (simp add: init_def)
  then have "?S\<lparr>scrollTimeout := None\<rparr> = ?S\<lparr>scrollTimeout := scrollTimeout ?S\<rparr>" by simp
  then have same: "?S\<lparr>scrollTimeout := None\<rparr> = ?S" by simp
  have "fireScrollTimeout 150 (wheel 40 0 (wheel 0 120 ?S))
          = scrollCallback 0 (?S\<lparr>scrollTimeout := None\<rparr>)"
    by (rule fireScrollTimeout_two_events) simp
  also have "\<dots> = Returns (?S\<lparr>scrollTimeout := None\<rparr>)" by (simp add: scrollCallback_def)
  finally show ?thesis using cur same by simp
qed

text \<open>
  Claim C8, amended: two wheel events less than 100 ms apart, with a valid section
  current. The timer of the first event has not run when the second arrives and is
  replaced by the timer of the second. When that is due its callback runs once, with
  the second event's \<open>deltaY\<close>: for \<open>deltaY > 0\<close> below section 4 it is exactly the
  call \<open>navigateToSection (current + 1)\<close>, for \<open>deltaY < 0\<close> above section 0 exactly the
  call \<open>navigateToSection (current - 1)\<close>, and otherwise (\<open>deltaY = 0\<close>, or at the bound)
  no navigation: only the timer is cleared. The call returns, makes the neighbouring
  section current and starts its camera, hide and show tweens; afterwards no timer is
  pending, so no second step follows.
\<close>

theorem C8_debounce:
  assumes "0 \<le> currentSection s" and "currentSection s \<le> 4"
    and "t1 \<le> t2" and "t2 < t1 + 100" and "t2 + 100 \<le> T"
  shows "fireScrollTimeout t2 (wheel t1 d1 s) = Returns (wheel t1 d1 s)
       \<and> scrollTimeout (wheel t2 d2 (wheel t1 d1 s)) = Some (t2 + 100, d2)
       \<and> fireScrollTimeout T (wheel t2 d2 (wheel t1 d1 s))
           = (if 0 < d2 \<and> currentSection s < 4
              then navigateToSection (currentSection s + 1) (s\<lparr>scrollTimeout := None\<rparr>)
              else if d2 < 0 \<and> 0 < currentSection s
              then navigateToSection (currentSection s - 1) (s\<lparr>scrollTimeout := None\<rparr>)
              else Returns (s\<lparr>scrollTimeout := None\<rparr>))
       \<and> (\<exists>s' m. fireScrollTimeout T (wheel t2 d2 (wheel t1 d1 s)) = Returns s'
             \<and> currentSection s'
                 = (if 0 < d2 \<and> currentSection s < 4 then currentSection s + 1
                    else if d2 < 0 \<and> 0 < currentSection s then currentSection s - 1
                    else currentSection s)
             \<and> sectionName_at (currentSection s') = Some m
             \<and> tweens s'
                 = (if (0 < d2 \<and> currentSection s < 4) \<or> (d2 < 0 \<and> 0 < currentSection s)
                    then tweens s @ cameraTweens (currentSection s') s @ hideTweens s @ showTweens m s
                    else tweens s)
             \<and> po_currentSection s'
                 = (if (0 < d2 \<and> currentSection s < 4) \<or> (d2 < 0 \<and> 0 < currentSection s)
                    then currentSection s' else po_currentSection s)
             \<and> scrollTimeout s' = None
             \<and> fireScrollTimeout T' s' = Returns s')"
proof -
  let ?s0 = "s\<lparr>scrollTimeout := None\<rparr>"
  let ?out = "fireScrollTimeout T (wheel t2 d2 (wheel t1 d1 s))"
  have a: "fireScrollTimeout t2 (wheel t1 d1 s) = Returns (wheel t1 d1 s)"
    using assms(4) by (simp add: fireScrollTimeout_def wheel_def)
  have b: "scrollTimeout (wheel t2 d2 (wheel t1 d1 s)) = Some (t2 + 100, d2)"
    by (simp add: wheel_def)
  have f: "?out = scrollCallback d2 ?s0" by (rule fireScrollTimeout_two_events [OF assms(5)])
  have c: "?out
           = (if 0 < d2 \<and> currentSection s < 4
              then navigateToSection (currentSection s + 1) ?s0
              else if d2 < 0 \<and> 0 < currentSection s
              then navigateToSection (currentSection s - 1) ?s0
              else Returns ?s0)"
    by (simp add: f scrollCallback_def)
  have nav: "\<exists>s'. navigateToSection j ?s0 = Returns s' \<and> currentSection s' = j
           \<and> sectionName_at (currentSection s') = Some m
           \<and> tweens s' = tweens s @ cameraTweens (currentSection s') s @ hideTweens s @ showTweens m s
           \<and> po_currentSection s' = currentSection s' \<and> scrollTimeout s' = None"
    if "sectionName_at j = Some m" "j \<noteq> currentSection s" for j m
  proof -
    from that(2) have ne: "j \<noteq> currentSection ?s0" by simp
    show ?thesis
      by (simp add: navigate_state [OF that(1) ne] tweens_scrollTimeout that(1))
  qed
  consider (up) "0 < d2" "currentSection s < 4"
    | (down) "\<not> (0 < d2 \<and> currentSection s < 4)" "d2 < 0" "0 < currentSection s"
    | (stay) "\<not> (0 < d2 \<and> currentSection s < 4)" "\<not> (d2 < 0 \<and> 0 < currentSection s)"
    by blast
  then have d: "\<exists>s' m. ?out = Returns s'
             \<and> currentSection s'
                 = (if 0 < d2 \<and> currentSection s < 4 then currentSection s + 1
                    else if d2 < 0 \<and> 0 < currentSection s then currentSection s - 1
                    else currentSection s)
             \<and> sectionName_at (currentSection s') = Some m
             \<and> tweens s'
                 = (if (0 < d2 \<and> currentSection s < 4) \<or> (d2 < 0 \<and> 0 < currentSection s)
                    then tweens s @ cameraTweens (currentSection s') s @ hideTweens s @ showTweens m s
                    else tweens s)
             \<and> po_currentSection s'
                 = (if (0 < d2 \<and> currentSection s < 4) \<or> (d2 < 0 \<and> 0 < currentSection s)
                    then currentSection s' else po_currentSection s)
             \<and> scrollTimeout s' = None"
  proof cases
    case up
    from assms(1) up(2) have "0 \<le> currentSection s + 1" "currentSection s + 1 \<le> 4" by simp_all
    from sectionName_at_valid [OF this] obtain m
      where m: "sectionName_at (currentSection s + 1) = Some m" ..
    from nav [OF m] obtain s' where s': "navigateToSection (currentSection s + 1) ?s0 = Returns s'"
      "currentSection s' = currentSection s + 1" "sectionName_at (currentSection s') = Some m"
      "tweens s' = tweens s @ cameraTweens (currentSection s') s @ hideTweens s @ showTweens m s"
      "po_currentSection s' = currentSection s'" "scrollTimeout s' = None"
      by auto
    have "?out = Returns s'" using c up s'(1) by simp
    with s'(2-6) up show ?thesis by (intro exI [of _ s'] exI [of _ m]) auto
  next
    case down
    from assms(2) down(3) have "0 \<le> currentSection s - 1" "currentSection s - 1 \<le> 4" by simp_all
    from sectionName_at_valid [OF this] obtain m
      where m: "sectionName_at (currentSection s - 1) = Some m" ..
    from nav [OF m] obtain s' where s': "navigateToSection (currentSection s - 1) ?s0 = Returns s'"
      "currentSection s' = currentSection s - 1" "sectionName_at (currentSection s') = Some m"
      "tweens s' = tweens s @ cameraTweens (currentSection s') s @ hideTweens s @ showTweens m s"
      "po_currentSection s' = currentSection s'" "scrollTimeout s' = None"
      by auto
    have "?out = Returns s'" using c down s'(1) by simp
    with s'(2-6) down show ?thesis by (intro exI [of _ s'] exI [of _ m]) auto
  next
    case stay
    from sectionName_at_valid [OF assms(1,2)] obtain m
      where m: "sectionName_at (currentSection s) = Some m" ..
    have "?out = Returns ?s0" using c stay by simp
    with stay m show ?thesis by (intro exI [of _ ?s0] exI [of _ m]) auto
  qed
  then obtain s' m where s': "?out = Returns s'"
    "currentSection s'
                 = (if 0 < d2 \<and> currentSection s < 4 then currentSection s + 1
                    else if d2 < 0 \<and> 0 < currentSection s then currentSection s - 1
                    else currentSection s)"
    "sectionName_at (currentSection s') = Some m"
    "tweens s'
                 = (if (0 < d2 \<and> currentSection s < 4) \<or> (d2 < 0 \<and> 0 < currentSection s)
                    then tweens s @ cameraTweens (currentSection s') s @ hideTweens s @ showTweens m s
                    else tweens s)"
    "po_currentSection s'
                 = (if (0 < d2 \<and> currentSection s < 4) \<or> (d2 < 0 \<and> 0 < currentSection s)
                    then currentSection s' else po_currentSection s)"
    "scrollTimeout s' = None"
    by blast
  have e: "fireScrollTimeout T' s' = Returns s'" using s'(6) by (simp add: fireScrollTimeout_def)
  have ex: "\<exists>s' m. ?out = Returns s'
             \<and> currentSection s'
                 = (if 0 < d2 \<and> currentSection s < 4 then currentSection s + 1
                    else if d2 < 0 \<and> 0 < currentSection s then currentSection s - 1
                    else currentSection s)
             \<and> sectionName_at (currentSection s') = Some m
             \<and> tweens s'
                 = (if (0 < d2 \<and> currentSection s < 4) \<or> (d2 < 0 \<and> 0 < currentSection s)
                    then tweens s @ cameraTweens (currentSection s') s @ hideTweens s @ showTweens m s
                    else tweens s)
             \<and> po_currentSection s'
                 = (if (0 < d2 \<and> currentSection s < 4) \<or> (d2 < 0 \<and> 0 < currentSection s)
                    then currentSection s' else po_currentSection s)
             \<and> scrollTimeout s' = None
             \<and> fireScrollTimeout T' s' = Returns s'"
    using s' e by (intro exI [of _ s'] exI [of _ m] conjI)
  from a b c ex show ?thesis by (intro conjI)
qed

theorem C8_debounce_witness:
  "fireScrollTimeout 150 (wheel 40 120 (wheel 0 (- 120) (init [] 1920 1080)))
      = navigateToSection 1 ((init [] 1920 1080)\<lparr>scrollTimeout := None\<rparr>)
   \<and> (\<exists>s'. fireScrollTimeout 150 (wheel 40 120 (wheel 0 (- 120) (init [] 1920 1080))) = Returns s'
         \<and> currentSection s' = 1 \<and> po_currentSection s' = 1
         \<and> length (tweens s') = 58
         \<and> fireScrollTimeout 1000 s' = Returns s')"
proof -
  let ?s = "init [] 1920 1080"
  have c: "currentSection ?s = 0" "tweens ?s = []" by (simp_all add: init_fields)
  note inst = C8_debounce [of ?s 0 40 150 "- 120" 120 1000]
  have pre: "0 \<le> currentSection ?s" "currentSection ?s \<le> 4" "(0::real) \<le> 40"
    "(40::real) < 0 + 100" "(40::real) + 100 \<le> 150"
    by (simp_all add: c)
  note r = inst [OF pre]
  have one: "fireScrollTimeout 150 (wheel 40 120 (wheel 0 (- 120) ?s))
      = navigateToSection 1 (?s\<lparr>scrollTimeout := None\<rparr>)"
    using r [THEN conjunct2, THEN conjunct2, THEN conjunct1] by (simp add: c)
  from r [THEN conjunct2, THEN conjunct2, THEN conjunct2] obtain s' m
    where s': "fireScrollTimeout 150 (wheel 40 120 (wheel 0 (- 120) ?s)) = Returns s'"
      "currentSection s' = 1" "sectionName_at (currentSection s') = Some m"
      "tweens s' = cameraTweens (currentSection s') ?s @ hideTweens ?s @ showTweens m ?s"
      "po_currentSection s' = 1" "fireScrollTimeout 1000 s' = Returns s'"
    by (auto simp: c)
  from s'(2,3) have m: "m = About" by (simp add: sectionName_at_numerals)
  have h: "length (hideTweens ?s) = 49" by (simp add: hideTweens_def allRefs_init_length)
  have sh: "length (showTweens About ?s) = 7"
    by (simp add: showTweens_def init_fields section_lengths)
  have "length (tweens s') = 58"
    by (simp add: s'(4) s'(2) m cameraTweens_valid h sh)
  with one s' show ?thesis by blast
qed

section \<open>The ripple of a click\<close>

lemma foldl_animateRipple_alive:
  assumes "rp_animating r" and "\<forall>fi \<in> set fs. fi_wall fi < rp_startTime r + 1000"
  shows "rp_animating (foldl (\<lambda>r fi. animateRipple (fi_wall fi) r) r fs)
       \<and> rp_startTime (foldl (\<lambda>r fi. animateRipple (fi_wall fi) r) r fs) = rp_startTime r
       \<and> rp_inScene (foldl (\<lambda>r fi. animateRipple (fi_wall fi) r) r fs) = rp_inScene r
       \<and> rp_geometryDisposed (foldl (\<lambda>r fi. animateRipple (fi_wall fi) r) r fs)
           = rp_geometryDisposed r
       \<and> rp_materialDisposed (foldl (\<lambda>r fi. animateRipple (fi_wall fi) r) r fs)
           = rp_materialDisposed r
       \<and> rp_position (foldl (\<lambda>r fi. animateRipple (fi_wall fi) r) r fs) = rp_position r"
  using assms
proof (induction fs arbitrary: r)
  case Nil
  then show ?case by simp
next
  case (Cons fi fs)
  from Cons.prems(2) have w: "fi_wall fi < rp_startTime r + 1000" by simp
  note st = animateRipple_step(2) [OF Cons.prems(1) w]
  have "\<forall>x \<in> set fs. fi_wall x < rp_startTime (animateRipple (fi_wall fi) r) + 1000"
    using Cons.prems(2) st by simp
  from Cons.IH [OF _ this] st show ?case by simp
qed

lemma foldl_animateRipple_last:
  assumes "rp_animating r" and "\<forall>fi \<in> set fs. fi_wall fi < rp_startTime r + 1000"
    and "fs \<noteq> []"
  shows "rp_scale (foldl (\<lambda>r fi. animateRipple (fi_wall fi) r) r fs)
           = Vec3 (1 + (fi_wall (last fs) - rp_startTime r) / 1000 * 3)
               (1 + (fi_wall (last fs) - rp_startTime r) / 1000 * 3) 1"
    and "rp_opacity (foldl (\<lambda>r fi. animateRipple (fi_wall fi) r) r fs)
           = 1 - (fi_wall (last fs) - rp_startTime r) / 1000"
proof -
  from assms(3) obtain ys y where fs: "fs = ys @ [y]" by (cases fs rule: rev_cases) auto
  let ?r = "foldl (\<lambda>r fi. animateRipple (fi_wall fi) r) r ys"
  have "\<forall>fi \<in> set ys. fi_wall fi < rp_startTime r + 1000" using assms(2) fs by simp
  from foldl_animateRipple_alive [OF assms(1) this]
  have al: "rp_animating ?r" "rp_startTime ?r = rp_startTime r" by simp_all
  have w: "fi_wall y < rp_startTime r + 1000" using assms(2) fs by simp
  have eq: "foldl (\<lambda>r fi. animateRipple (fi_wall fi) r) r fs = animateRipple (fi_wall y) ?r"
    by (simp add: fs)
  show "rp_scale (foldl (\<lambda>r fi. animateRipple (fi_wall fi) r) r fs)
           = Vec3 (1 + (fi_wall (last fs) - rp_startTime r) / 1000 * 3)
               (1 + (fi_wall (last fs) - rp_startTime r) / 1000 * 3) 1"
    using al w by (simp add: eq animateRipple_def Let_def fs)
  show "rp_opacity (foldl (\<lambda>r fi. animateRipple (fi_wall fi) r) r fs)
           = 1 - (fi_wall (last fs) - rp_startTime r) / 1000"
    using al w by (simp add: eq animateRipple_def Let_def fs)
qed

lemma animateRipple_position: "rp_position (animateRipple w r) = rp_position r"
  by (simp add: animateRipple_def Let_def)

lemma foldl_animateRipple_position:
  "rp_position (foldl (\<lambda>r fi. animateRipple (fi_wall fi) r) r fs) = rp_position r"
  by (induction fs arbitrary: r) (simp_all add: animateRipple_position)

lemma hero_init_0:
  "position (objects (init page w h) Hero ! 0) = Pos 0 0 0"
  by (simp add: init_def createHeroSection_def)




section \<open>The scene before the first navigation\<close>

lemma run_snoc:
  "run (fs @ [fi]) s = Returns s' \<Longrightarrow> \<exists>s1. run fs s = Returns s1 \<and> frame fi s1 = Returns s'"
proof (induction fs arbitrary: s)
  case Nil
  then show ?case by (simp split: outcome.splits)
next
  case (Cons a fs)
  from Cons.prems obtain s0 where s0: "frame a s = Returns s0" "run (fs @ [fi]) s0 = Returns s'"
    by (auto split: outcome.splits)
  from Cons.IH [OF s0(2)] s0(1) show ?case by simp
qed

lemma contact_init:
  "k < 5 \<Longrightarrow> ud_delay (objects (init page w h) Contact ! k) = Some (real k * 0.2)"
  "ud_delay (objects (init page w h) Contact ! 5) = None"
  "length (objects (init page w h) Contact) = 6"
  by (simp_all add: init_def createContactSection_def contactRing_def nth_append newMesh_def
      newObject_def)

lemma run_contact_ring:
  assumes "run fs s = Returns s'" and "fs \<noteq> []"
    and "k < length (objects s Contact)" and "ud_delay (objects s Contact ! k) = Some d"
  shows "scale (objects s' Contact ! k)
           = Vec3 (1 + sin (fi_elapsed (last fs) * 2 - d) * 0.2)
               (1 + sin (fi_elapsed (last fs) * 2 - d) * 0.2)
               (1 + sin (fi_elapsed (last fs) * 2 - d) * 0.2)"
proof -
  from assms(2) obtain ys y where fs: "fs = ys @ [y]" by (cases fs rule: rev_cases) auto
  from run_snoc [OF assms(1) [unfolded fs]] obtain s1
    where s1: "run ys s = Returns s1" "frame y s1 = Returns s'" by auto
  note rf = run_fields [OF s1(1)]
  have l: "k < length (objects s1 Contact)" using rf assms(3) by simp
  have d: "ud_delay (objects s1 Contact ! k) = Some d" using rf assms(3,4) by simp
  have "s' = stateOf (frame y s1)" by (simp add: s1(2))
  then show ?thesis using frame_contact_ring(1) [OF l d, of y] by (simp add: fs)
qed




section \<open>The contact rings after a navigation\<close>

text \<open>
  Claim C2 says that every object of a section other than the current one has scale
  zero. From the state after construction, navigate to Projects (section 2) and run one
  frame at 2 s, when all tweens of the navigation have ended: the frame returns, no
  tween is pending, Projects is current, and the five rings of the contact section
  have the scale \<open>1 + 0.2 * sin (4 - 0.2 * k)\<close> in each coordinate, which is at least
  0.8. The hide tween of \<open>updateActiveSection\<close> has set their scale to zero, and the
  per-frame update of the contact section has overwritten it in the same frame, as it
  does in every frame whichever section is current.
\<close>

theorem C2_contact_rings:
  "(case run [\<lparr>fi_time = 2, fi_elapsed = 2, fi_delta = 2, fi_wall = 2000, fi_ray = (\<lambda>objs. None)\<rparr>]
          (stateOf (navigateToSection 2 (init [True, False, False, False, False] 1920 1080)))
    of Throws e s \<Rightarrow> False
     | Returns s2 \<Rightarrow>
         tweens s2 = [] \<and> currentSection s2 = 2 \<and> po_currentSection s2 = 2
         \<and> sectionName_at (po_currentSection s2) = Some Projects
         \<and> map scale (take 5 (objects s2 Contact))
             = map (\<lambda>k. Vec3 (1 + sin (4 - real k * 0.2) * 0.2) (1 + sin (4 - real k * 0.2) * 0.2)
                          (1 + sin (4 - real k * 0.2) * 0.2)) [0..<5]
         \<and> list_all (\<lambda>v. 0.8 \<le> vx v \<and> 0.8 \<le> vy v \<and> 0.8 \<le> vz v)
             (map scale (take 5 (objects s2 Contact))))"
proof -
  let ?s0 = "init [True, False, False, False, False] 1920 1080"
  let ?S = "stateOf (navigateToSection 2 ?s0)"
  let ?f = "\<lparr>fi_time = 2, fi_elapsed = 2, fi_delta = 2, fi_wall = 2000, fi_ray = (\<lambda>objs. None)\<rparr>"
  let ?v = "\<lambda>k. Vec3 (1 + sin (4 - real k * 0.2) * 0.2) (1 + sin (4 - real k * 0.2) * 0.2)
                          (1 + sin (4 - real k * 0.2) * 0.2)"
  have ne: "2 \<noteq> currentSection ?s0" by (simp add: init_fields)
  note nf = navigate_fields [OF sectionName_at_numerals(3) ne]
  from navigate_one_frame [of ?s0 2 Projects ?f] ne
  obtain s2 where s2: "run [?f] ?S = Returns s2" "tweens s2 = []"
    by (auto simp: init_fields sectionName_at_numerals section_lengths)
  note rf = run_fields [OF s2(1)]
  have cur: "currentSection s2 = 2" "po_currentSection s2 = 2"
    using rf nf(7,8) by simp_all
  have len: "length (objects s2 Contact) = 6"
    using rf by (simp add: nf(2) contact_init(3))
  have ring: "scale (objects s2 Contact ! k) = ?v k" if k: "k < 5" for k
  proof -
    have l: "k < length (objects ?S Contact)" using k by (simp add: nf(2) contact_init(3))
    have d: "ud_delay (objects ?S Contact ! k) = Some (real k * 0.2)"
      using contact_init(1) [OF k] by (simp add: nf(2))
    have "scale (objects s2 Contact ! k)
            = Vec3 (1 + sin (fi_elapsed (last [?f]) * 2 - real k * 0.2) * 0.2)
                (1 + sin (fi_elapsed (last [?f]) * 2 - real k * 0.2) * 0.2)
                (1 + sin (fi_elapsed (last [?f]) * 2 - real k * 0.2) * 0.2)"
      using s2(1) _ l d by (rule run_contact_ring) simp
    then show ?thesis by simp
  qed
  have m: "map scale (take 5 (objects s2 Contact)) = map ?v [0..<5]"
    by (rule nth_equalityI) (simp_all add: len ring)
  have b: "0.8 \<le> 1 + sin (4 - real k * 0.2) * 0.2" for k
  proof -
    have "- 1 \<le> sin (4 - real k * 0.2)" by (rule sin_ge_minus_one)
    then show ?thesis by linarith
  qed
  have la: "list_all (\<lambda>v. 0.8 \<le> vx v \<and> 0.8 \<le> vy v \<and> 0.8 \<le> vz v) (map ?v [0..<5])"
    unfolding list_all_iff
  proof
    fix v assume "v \<in> set (map ?v [0..<5])"
    then obtain k where v: "v = ?v k" by auto
    from b [of k] show "0.8 \<le> vx v \<and> 0.8 \<le> vy v \<and> 0.8 \<le> vz v"
      by (simp only: v Vec3_def vec3.simps simp_thms)
  qed
  show ?thesis
    by (simp only: s2 outcome.case cur sectionName_at_numerals(3) m la simp_thms)
qed

end
